theory Spec2Isabelle
  imports Complex_Main "HOL-Library.Sublist"
begin

section \<open>Python primitives used by the program\<close>

text \<open>
  Python strings are modelled as HOL lists of characters; the functions that only slice
  and concatenate are polymorphic in the element type, so they hold for Unicode code
  points as well as for bytes.
\<close>

text \<open>\<^verbatim>\<open>range(i, stop, step)\<close> for a positive step. Python raises ValueError for
  a zero step; the program only calls it with the constant step 100000, and the model
  returns the empty list for step 0.\<close>

function py_range :: "nat \<Rightarrow> nat \<Rightarrow> nat \<Rightarrow> nat list" where
  "py_range i stop step =
     (if 0 < step \<and> i < stop then i # py_range (i + step) stop step else [])"
  by pat_completeness auto
termination
  by (relation "measure (\<lambda>(i, stop, step). stop - i)") auto

declare py_range.simps [simp del]

text \<open>\<^verbatim>\<open>s[i:j]\<close> for indices \<open>0 \<le> i \<le> j\<close>: Python clips a slice at the end of the
  sequence, as \<open>take\<close> and \<open>drop\<close> do.\<close>

definition py_slice :: "'a list \<Rightarrow> nat \<Rightarrow> nat \<Rightarrow> 'a list" where
  "py_slice s i j = take (j - i) (drop i s)"

text \<open>\<^verbatim>\<open>str(n)\<close> of a non-negative integer: its decimal digits.\<close>

fun str_nat :: "nat \<Rightarrow> string" where
  "str_nat n =
     (if n < 10 then [''0123456789'' ! n]
      else str_nat (n div 10) @ [''0123456789'' ! (n mod 10)])"

declare str_nat.simps [simp del]

section \<open>Chunking and the prompt sequence (\<open>handle_request\<close>, lines 111 to 122)\<close>

text \<open>
  \<^verbatim>\<open>
  chunk_size = 100000
  chunks = []
  for file_content in adls_file_contents:
      chunks.extend([file_content[i:i + chunk_size]
                     for i in range(0, len(file_content), chunk_size)])
  \<close>
  \<open>chunks_of\<close> is the list comprehension, \<open>make_chunks\<close> the loop around it.
\<close>

definition chunk_size :: nat where
  "chunk_size = 100000"

definition chunks_of :: "nat \<Rightarrow> 'a list \<Rightarrow> 'a list list" where
  "chunks_of csize file_content =
     map (\<lambda>i. py_slice file_content i (i + csize))
       (py_range 0 (length file_content) csize)"

definition make_chunks :: "'a list list \<Rightarrow> 'a list list" where
  "make_chunks adls_file_contents =
     fold (\<lambda>file_content chunks. chunks @ chunks_of chunk_size file_content)
       adls_file_contents []"

text \<open>The four fixed analysis prompts, character for character as in the source.\<close>

definition rfp_analysis_prompt :: string where
  "rfp_analysis_prompt =
     ''RFP Analysis Prompt: Please thoroughly analyze the attached RFP document, '' @
     ''including all amendments, Q&A responses, and related attachments. Identify and '' @
     ''extract the following key information:\<newline>\<newline>Customer's primary '' @
     ''objectives and requirements\<newline>\<newline>Evaluation criteria and their '' @
     ''relative weightings\<newline>\<newline>Submission deadlines and formatting '' @
     ''requirements\<newline>\<newline>Any unique or mandatory compliance '' @
     ''requirements\<newline>\<newline>Summarize your findings in a clear, concise '' @
     ''report highlighting the most critical elements we must address to be fully '' @
     ''responsive and compliant.''"

definition customer_problem_prompt :: string where
  "customer_problem_prompt =
     ''Customer Problem/Objective Identification Prompt: Based on your analysis of '' @
     ''the RFP and any additional customer background information provided, identify '' @
     ''the customer's top 3-5 problems, pain points, or strategic objectives that our '' @
     ''solution must address to win. For each '' @
     ''problem/objective:\<newline>\<newline>Describe the current situation and its '' @
     ''negative impacts on the customer\<newline>\<newline>Highlight the urgency and '' @
     ''importance of addressing it\<newline>\<newline>Identify any specific metrics '' @
     ''or success criteria the customer has defined\<newline>\<newline>Suggest '' @
     ''potential solution elements or approaches that could effectively tackle the '' @
     ''problem\<newline>\<newline>Present your findings in a prioritized list with '' @
     ''supporting rationale for each item.''"

definition full_draft_prompt :: string where
  "full_draft_prompt =
     ''Full Proposal Draft Assembly Prompt: Please assemble the complete first draft '' @
     ''of the proposal, integrating all AI-generated section content according to the '' @
     ''approved outline structure. Ensure that:\<newline>\<newline>All sections and '' @
     ''subsections flow logically and persuasively, with clear transitions and '' @
     ''cross-references as needed\<newline>\<newline>All RFP requirements and '' @
     ''evaluation criteria are fully addressed, with no gaps or '' @
     ''redundancies\<newline>\<newline>All win themes, differentiators, and proof '' @
     ''points are consistently messaged and mutually reinforcing across '' @
     ''sections\<newline>\<newline>Continuity and consistency across all sections in '' @
     ''terms of customer focus, tone, style, and reading '' @
     ''level\<newline>\<newline>Placeholders for graphics, tables, and callout boxes '' @
     ''are appropriate and properly formatted\<newline>\<newline>All required '' @
     ''attachments, forms, and administrative elements are included and '' @
     ''compliant\<newline>\<newline>Please provide a detailed table of contents and '' @
     ''cross-reference matrix to aid in navigation and compliance reviews. Clearly '' @
     ''label any areas requiring further SME input or validation.''"

definition final_proposal_prompt :: string where
  "final_proposal_prompt =
     ''Please, according to all consolidated info from previous prompts, create the '' @
     ''final proposal (With right format and titles, please write titles and '' @
     ''subtitles between **'' @ '')''"

text \<open>
  \<^verbatim>\<open>
  prompts = [f"Please acknowledge and save the following content chunk {i + 1}:\n{chunk}"
             for i, chunk in enumerate(chunks)]
  prompts.append(...)   # four times
  \<close>
\<close>

definition ack_prompt :: "nat \<Rightarrow> string \<Rightarrow> string" where
  "ack_prompt i chunk =
     ''Please acknowledge and save the following content chunk '' @ str_nat (i + 1) @
     '':\<newline>'' @ chunk"

definition build_prompts :: "string list \<Rightarrow> string list" where
  "build_prompts chunks =
     (((map (\<lambda>(i, chunk). ack_prompt i chunk) (enumerate 0 chunks)
        @ [rfp_analysis_prompt])
        @ [customer_problem_prompt])
        @ [full_draft_prompt])
        @ [final_proposal_prompt]"

section \<open>Exceptions\<close>

text \<open>
  Every exception the model can raise is a subclass of Python's \<open>Exception\<close>, so the
  handlers written \<^verbatim>\<open>except Exception\<close> catch all of them. The string is the
  exception's message, what \<^verbatim>\<open>f"{e}"\<close> prints.
\<close>

datatype exn =
    Exception string
  | ValueError string
  | AttributeError string
  | IndexError string
  | UnboundLocalError string

fun exn_str :: "exn \<Rightarrow> string" where
  "exn_str (Exception m) = m"
| "exn_str (ValueError m) = m"
| "exn_str (AttributeError m) = m"
| "exn_str (IndexError m) = m"
| "exn_str (UnboundLocalError m) = m"

section \<open>Content extractor (\<open>process_file\<close> and its helpers)\<close>

text \<open>File contents are bytes; a HOL \<open>char\<close> is one byte.\<close>

type_synonym bytes = "char list"

text \<open>
  The parsing libraries (pandas, python-docx, pdfplumber, python-pptx, the UTF-8 codec
  and the Word automation behind \<open>convert_doc_to_docx\<close>) are not part of the
  repository. Each is a parameter: a function from the file's bytes to what the library
  yields, or to the exception it raises on content it cannot read.
  \<^item> \<open>read_excel\<close>: \<^verbatim>\<open>pd.read_excel(io.BytesIO(c)).to_string()\<close>;
  \<^item> \<open>docx_paragraphs\<close>: the texts of \<^verbatim>\<open>DocxDocument(io.BytesIO(c)).paragraphs\<close>;
  \<^item> \<open>pdf_pages\<close>: \<^verbatim>\<open>page.extract_text()\<close> of each page of the opened PDF;
  \<^item> \<open>pptx_shapes\<close>: for each slide, for each shape, its text when the shape has one;
  \<^item> \<open>utf8_decode\<close>: \<^verbatim>\<open>c.decode('utf-8')\<close>;
  \<^item> \<open>doc_to_docx\<close>: the conversion of \<open>convert_doc_to_docx\<close> through Word.
\<close>

record libs =
  read_excel :: "bytes \<Rightarrow> exn + string"
  docx_paragraphs :: "bytes \<Rightarrow> exn + string list"
  pdf_pages :: "bytes \<Rightarrow> exn + string list"
  pptx_shapes :: "bytes \<Rightarrow> exn + string option list list"
  utf8_decode :: "bytes \<Rightarrow> exn + string"
  doc_to_docx :: "bytes \<Rightarrow> exn + bytes"

text \<open>\<^verbatim>\<open>sep.join(xs)\<close>.\<close>

fun py_join :: "'a list \<Rightarrow> 'a list list \<Rightarrow> 'a list" where
  "py_join sep [] = []"
| "py_join sep [x] = x"
| "py_join sep (x # y # ys) = x @ sep @ py_join sep (y # ys)"

text \<open>\<^verbatim>\<open>s.lower()\<close> on ASCII letters (the extensions compared against are ASCII, and no
  character outside ASCII lower-cases to one of their letters).\<close>

definition char_lower :: "char \<Rightarrow> char" where
  "char_lower c =
     (case map_of (zip ''ABCDEFGHIJKLMNOPQRSTUVWXYZ'' ''abcdefghijklmnopqrstuvwxyz'') c of
        Some l \<Rightarrow> l
      | None \<Rightarrow> c)"

definition py_lower :: "string \<Rightarrow> string" where
  "py_lower s = map char_lower s"

text \<open>\<^verbatim>\<open>s.rfind(c)\<close> for a single character: the last index holding it, or \<open>-1\<close>.\<close>

fun rfind_from :: "char \<Rightarrow> string \<Rightarrow> int \<Rightarrow> int \<Rightarrow> int" where
  "rfind_from c [] i found = found"
| "rfind_from c (x # xs) i found = rfind_from c xs (i + 1) (if x = c then i else found)"

definition rfind :: "string \<Rightarrow> char \<Rightarrow> int" where
  "rfind s c = rfind_from c s 0 (-1)"

text \<open>
  \<^verbatim>\<open>os.path.splitext(p)\<close>, the standard library's \<open>genericpath._splitext\<close> with the
  separators of the platform the program imports its Word automation for (backslash and
  slash): the extension starts at the last dot of the last path component, and leading
  dots of that component do not start an extension.
\<close>

definition splitext :: "string \<Rightarrow> string \<times> string" where
  "splitext p =
     (let sepIndex = max (rfind p (CHR 0x5C)) (rfind p (CHR ''/''));
          dotIndex = rfind p (CHR ''.'')
      in if dotIndex > sepIndex \<and>
            list_ex (\<lambda>c. c \<noteq> CHR ''.'') (py_slice p (nat (sepIndex + 1)) (nat dotIndex))
         then (take (nat dotIndex) p, drop (nat dotIndex) p)
         else (p, []))"

text \<open>
  The five extractors. \<open>process_excel\<close> is the only one with a \<^verbatim>\<open>try\<close> around the
  parser: it returns the message in place of the content (the same message goes to the
  log, which the model of the extractor leaves out). The others let the parser's
  exception through.
\<close>

definition process_excel :: "libs \<Rightarrow> bytes \<Rightarrow> string" where
  "process_excel L file_content =
     (case read_excel L file_content of
        Inr df_string \<Rightarrow> df_string
      | Inl e \<Rightarrow> ''Error processing Excel file: '' @ exn_str e)"

definition process_word :: "libs \<Rightarrow> bytes \<Rightarrow> exn + string" where
  "process_word L file_content =
     (case docx_paragraphs L file_content of
        Inl e \<Rightarrow> Inl e
      | Inr paragraphs \<Rightarrow> Inr (py_join ''\<newline>'' paragraphs))"

definition process_pdf :: "libs \<Rightarrow> bytes \<Rightarrow> exn + string" where
  "process_pdf L file_content =
     (case pdf_pages L file_content of
        Inl e \<Rightarrow> Inl e
      | Inr pages \<Rightarrow> Inr (fold (\<lambda>page text. text @ page @ ''\<newline>'') pages []))"

definition process_ppt :: "libs \<Rightarrow> bytes \<Rightarrow> exn + string" where
  "process_ppt L file_content =
     (case pptx_shapes L file_content of
        Inl e \<Rightarrow> Inl e
      | Inr slides \<Rightarrow>
          Inr (py_join ''\<newline>''
            (fold (\<lambda>slide text_runs.
                fold (\<lambda>shape runs. case shape of None \<Rightarrow> runs | Some t \<Rightarrow> runs @ [t])
                  slide text_runs)
              slides [])))"

definition process_text :: "libs \<Rightarrow> bytes \<Rightarrow> exn + string" where
  "process_text L file_content = utf8_decode L file_content"

definition process_file :: "libs \<Rightarrow> string \<Rightarrow> bytes \<Rightarrow> exn + string" where
  "process_file L file_name file_content =
     (let file_ext = py_lower (snd (splitext file_name)) in
      if file_ext = ''.xlsx'' \<or> file_ext = ''.xls'' then
        Inr (process_excel L file_content)
      else if file_ext = ''.docx'' \<or> file_ext = ''.doc'' then
        (if file_ext = ''.doc'' then
           (case doc_to_docx L file_content of
              Inl e \<Rightarrow> Inl e
            | Inr converted \<Rightarrow> process_word L converted)
         else process_word L file_content)
      else if file_ext = ''.pdf'' then process_pdf L file_content
      else if file_ext = ''.pptx'' then process_ppt L file_content
      else if file_ext = ''.txt'' then process_text L file_content
      else Inr (''Unsupported file type: '' @ file_ext))"

text \<open>
  The loop of \<open>download_from_adls\<close> over the blobs of the folder (name and bytes of each,
  as listed and read from the store): an exception of \<open>process_file\<close> leaves the loop
  and the function.
\<close>

fun download_from_adls :: "libs \<Rightarrow> (string \<times> bytes) list \<Rightarrow> string list \<Rightarrow> exn + string list"
  where
  "download_from_adls L [] file_contents = Inr file_contents"
| "download_from_adls L ((blob_name, file_content) # blobs) file_contents =
     (case process_file L blob_name file_content of
        Inl e \<Rightarrow> Inl e
      | Inr text \<Rightarrow> download_from_adls L blobs (file_contents @ [text]))"

text \<open>Libraries for the concrete runs below: every parser rejects the bytes
  \<open>''corrupt''\<close> and reads anything else as one line of text.\<close>

definition rejecting :: "string \<Rightarrow> (string \<Rightarrow> 'a) \<Rightarrow> bytes \<Rightarrow> exn + 'a" where
  "rejecting what ok file_content =
     (if file_content = ''corrupt'' then Inl (Exception (what @ '': not a valid file''))
      else Inr (ok file_content))"

definition demo_libs :: libs where
  "demo_libs =
     \<lparr> read_excel = rejecting ''xlsx'' (\<lambda>c. c),
       docx_paragraphs = rejecting ''docx'' (\<lambda>c. [c]),
       pdf_pages = rejecting ''pdf'' (\<lambda>c. [c]),
       pptx_shapes = rejecting ''pptx'' (\<lambda>c. [[Some c]]),
       utf8_decode = rejecting ''utf-8'' (\<lambda>c. c),
       doc_to_docx = rejecting ''doc'' (\<lambda>c. c) \<rparr>"

section \<open>Documents and the emphasis-markup renderer (\<open>add_formatted_content\<close>)\<close>

text \<open>
  A python-docx document is the list of its blocks in order; a paragraph is the list of
  its runs, each a text with its bold flag. Saving a document to a byte stream is the
  identity on this content.
\<close>

datatype docx_run = Docx_run (run_text: string) (bold: bool)

datatype block = Heading string nat | Paragraph "docx_run list"

text \<open>\<^verbatim>\<open>s.find(sub)\<close>: the lowest index at which \<open>sub\<close> occurs in \<open>s\<close>. Python returns
  \<open>-1\<close> when there is none; the model returns \<open>None\<close>.\<close>

fun find_sub :: "'a list \<Rightarrow> 'a list \<Rightarrow> nat option" where
  "find_sub sub [] = (if sub = [] then Some 0 else None)"
| "find_sub sub (x # xs) =
     (if prefix sub (x # xs) then Some 0 else map_option Suc (find_sub sub xs))"

text \<open>\<^verbatim>\<open>s.find(sub, start)\<close>: the search starts at index \<open>start\<close>, the result is an index
  of \<open>s\<close>.\<close>

definition py_find :: "'a list \<Rightarrow> 'a list \<Rightarrow> nat \<Rightarrow> nat option" where
  "py_find s sub start =
     (if length s < start then None
      else map_option (\<lambda>k. start + k) (find_sub sub (drop start s)))"

text \<open>\<^verbatim>\<open>s.split(sep)\<close> for a one-character separator: never empty, the pieces between
  the separators in order.\<close>

fun py_split :: "'a \<Rightarrow> 'a list \<Rightarrow> 'a list list" where
  "py_split sep [] = [[]]"
| "py_split sep (c # cs) =
     (let rest = py_split sep cs
      in if c = sep then [] # rest else (c # hd rest) # tl rest)"

text \<open>
  The body of the loop over the paragraphs, from the \<^verbatim>\<open>while '**' in paragraph\<close> to
  the final \<^verbatim>\<open>p.add_run(paragraph)\<close>: the runs added to the new paragraph \<open>p\<close>.
  \<^verbatim>\<open>
  while '**' in paragraph:
      start_index = paragraph.find('**')
      end_index = paragraph.find('**', start_index + 2)
      if end_index == -1:
          break
      p.add_run(paragraph[:start_index])
      p.add_run(paragraph[start_index + 2:end_index]).bold = True
      paragraph = paragraph[end_index + 2:]
  p.add_run(paragraph)
  \<close>
\<close>

lemma find_sub_bound:
  "find_sub sub s = Some k \<Longrightarrow> k + length sub \<le> length s"
proof (induction s arbitrary: k)
  case Nil
  then show ?case by (simp split: if_splits)
next
  case (Cons x xs)
  show ?case
  proof (cases "prefix sub (x # xs)")
    case True
    with Cons.prems show ?thesis by (auto dest: prefix_length_le)
  next
    case False
    with Cons.prems obtain j where "find_sub sub xs = Some j" and "k = Suc j"
      by auto
    with Cons.IH show ?thesis by fastforce
  qed
qed

function format_runs :: "string \<Rightarrow> docx_run list" where
  "format_runs paragraph =
     (case py_find paragraph ''**'' 0 of
        None \<Rightarrow> [Docx_run paragraph False]
      | Some start_index \<Rightarrow>
          (case py_find paragraph ''**'' (start_index + 2) of
             None \<Rightarrow> [Docx_run paragraph False]
           | Some end_index \<Rightarrow>
               Docx_run (take start_index paragraph) False
               # Docx_run (py_slice paragraph (start_index + 2) end_index) True
               # format_runs (drop (end_index + 2) paragraph)))"
  by pat_completeness auto
termination
proof (relation "measure length")
  show "wf (measure length)" by simp
next
  fix p :: string and start_index end_index :: nat
  assume "py_find p ''**'' 0 = Some start_index"
  then have "find_sub ''**'' p = Some start_index"
    by (simp add: py_find_def option.map_ident)
  then have "start_index + 2 \<le> length p"
    using find_sub_bound [of "''**''" p start_index] by simp
  then show "(drop (end_index + 2) p, p) \<in> measure length"
    by simp
qed

declare format_runs.simps [simp del]

definition add_formatted_content :: "block list \<Rightarrow> string \<Rightarrow> block list" where
  "add_formatted_content draft_doc content_text =
     fold (\<lambda>paragraph doc. doc @ [Paragraph (format_runs paragraph)])
       (py_split (CHR ''\<newline>'') content_text) draft_doc"

text \<open>
  Two notions to state what the renderer does. \<open>count_markers\<close> is \<^verbatim>\<open>s.count('**')\<close>:
  the occurrences of the marker counted from left to right without overlap.
  \<open>run_markup\<close> writes a run back in the markup: a bold run between two markers, a plain
  run as it is.
\<close>

function count_markers :: "string \<Rightarrow> nat" where
  "count_markers s =
     (case find_sub ''**'' s of
        None \<Rightarrow> 0
      | Some k \<Rightarrow> 1 + count_markers (drop (k + 2) s))"
  by pat_completeness auto
termination
proof (relation "measure length")
  show "wf (measure length)" by simp
next
  fix s :: string and k :: nat
  assume "find_sub ''**'' s = Some k"
  then have "k + 2 \<le> length s"
    using find_sub_bound [of "''**''" s k] by simp
  then show "(drop (k + 2) s, s) \<in> measure length"
    by simp
qed

declare count_markers.simps [simp del]

definition run_markup :: "docx_run \<Rightarrow> string" where
  "run_markup r = (if bold r then ''**'' @ run_text r @ ''**'' else run_text r)"

section \<open>Request entry point (\<open>main\<close> of the trigger function)\<close>

text \<open>
  The value \<^verbatim>\<open>req.get_json()\<close> returns: what \<open>json.loads\<close> builds from a JSON text.
  An object is the association list of its members, keys distinct as in a Python
  dictionary. A float is the real number it stands for (the extensions NaN and
  Infinity are left out; like every non-zero number they are true in a condition).
\<close>

datatype json =
    JNull
  | JBool bool
  | JInt int
  | JFloat real
  | JStr string
  | JArr "json list"
  | JObj "(string \<times> json) list"

text \<open>Python's truth value of such a value, what \<^verbatim>\<open>not x\<close> negates.\<close>

fun truthy :: "json \<Rightarrow> bool" where
  "truthy JNull = False"
| "truthy (JBool b) = b"
| "truthy (JInt n) = (n \<noteq> 0)"
| "truthy (JFloat x) = (x \<noteq> 0)"
| "truthy (JStr s) = (s \<noteq> [])"
| "truthy (JArr xs) = (xs \<noteq> [])"
| "truthy (JObj kvs) = (kvs \<noteq> [])"

text \<open>\<^verbatim>\<open>req_body.get(key)\<close>: the member or \<open>None\<close> on a dictionary; any other value
  has no attribute \<open>get\<close>.\<close>

definition dict_get :: "(string \<times> json) list \<Rightarrow> string \<Rightarrow> json" where
  "dict_get kvs key = (case map_of kvs key of None \<Rightarrow> JNull | Some v \<Rightarrow> v)"

fun body_get :: "json \<Rightarrow> string \<Rightarrow> exn + json" where
  "body_get (JObj kvs) key = Inr (dict_get kvs key)"
| "body_get v key = Inl (AttributeError ''object has no attribute get'')"

text \<open>The request, as far as \<open>main\<close> reads it: the result of \<^verbatim>\<open>req.get_json()\<close>, which
  raises ValueError on a body that is not JSON.\<close>

record http_request =
  get_json :: "exn + json"

record http_response =
  body :: string
  status_code :: nat

text \<open>What \<open>main\<close> does besides returning: the lines it logs and the background thread it
  starts, with the two arguments given to \<open>handle_request_in_background\<close>.\<close>

datatype main_log = Main_info string | Main_error string

record main_effects =
  logged :: "main_log list"
  started :: "(json \<times> json) option"

definition main_failed :: "exn \<Rightarrow> http_response \<times> main_effects" where
  "main_failed e =
     (\<lparr> body = ''An error occurred. Check logs for details.'', status_code = 500 \<rparr>,
      \<lparr> logged = [Main_info ''Python HTTP trigger function processed a request.'',
                  Main_error (''Error processing request: '' @ exn_str e)],
        started = None \<rparr>)"

definition main :: "http_request \<Rightarrow> http_response \<times> main_effects" where
  "main req =
     (case get_json req of
        Inl e \<Rightarrow> main_failed e
      | Inr req_body \<Rightarrow>
          (case body_get req_body ''attachments_folder_id'' of
             Inl e \<Rightarrow> main_failed e
           | Inr attachments_folder_id \<Rightarrow>
               (case body_get req_body ''response_folder_id'' of
                  Inl e \<Rightarrow> main_failed e
                | Inr response_folder_id \<Rightarrow>
                    if \<not> truthy attachments_folder_id \<or> \<not> truthy response_folder_id then
                      (\<lparr> body = ''Missing folder IDs in the request body.'',
                         status_code = 400 \<rparr>,
                       \<lparr> logged =
                           [Main_info ''Python HTTP trigger function processed a request.'',
                            Main_error ''Missing folder IDs in the request body.''],
                         started = None \<rparr>)
                    else
                      (\<lparr> body =
                           ''The function is processing in the background. Check logs for details.'',
                         status_code = 202 \<rparr>,
                       \<lparr> logged =
                           [Main_info ''Python HTTP trigger function processed a request.''],
                         started = Some (attachments_folder_id, response_folder_id) \<rparr>))))"

text \<open>
  The rejection rule in the words of the interface description: a folder-id field is
  missing when the body has no member of that name, and empty when the member is the
  empty string.
\<close>

definition folder_id_field :: "json \<Rightarrow> string \<Rightarrow> json option" where
  "folder_id_field req_body key = (case req_body of JObj kvs \<Rightarrow> map_of kvs key | _ \<Rightarrow> None)"

definition missing_or_empty :: "json option \<Rightarrow> bool" where
  "missing_or_empty field = (field = None \<or> field = Some (JStr []))"

section \<open>Conversation orchestrator (\<open>handle_request\<close>, lines 124 to 217)\<close>

subsection \<open>The remote services\<close>

text \<open>
  A thread message as the program reads it: \<^verbatim>\<open>message.role\<close>,
  \<^verbatim>\<open>message.created_at\<close> (a Unix time stamp) and \<^verbatim>\<open>message.content\<close>, a list of
  blocks of which the program reads \<^verbatim>\<open>content[0].text.value\<close>.
\<close>

datatype content_block = Text_block string | Image_block

record message =
  role :: string
  created_at :: int
  content :: "content_block list"

record run =
  run_id :: string
  status :: string

text \<open>
  The assistant service and the file share are outside the program. They are a
  parameter: one function per remote operation, from the state \<open>'w\<close> of the outside
  world to the operation's result (\<open>Inl\<close> the exception it raises) and the world after.
  \<^item> \<open>threads_create\<close>: \<^verbatim>\<open>client.beta.threads.create().id\<close>;
  \<^item> \<open>messages_create thread_id role content\<close>: \<^verbatim>\<open>client.beta.threads.messages.create\<close>;
  \<^item> \<open>runs_create thread_id assistant_id\<close>: \<^verbatim>\<open>client.beta.threads.runs.create\<close>;
  \<^item> \<open>runs_retrieve thread_id run_id\<close>: \<^verbatim>\<open>client.beta.threads.runs.retrieve\<close>;
  \<^item> \<open>messages_list thread_id\<close>: \<^verbatim>\<open>client.beta.threads.messages.list(...).data\<close>;
  \<^item> \<open>onedrive_put file_name document\<close>: the \<^verbatim>\<open>requests.put\<close> of \<open>upload_to_onedrive\<close>,
    giving the response's status code and what \<^verbatim>\<open>response.json()\<close> would return.
\<close>

record 'w services =
  threads_create :: "'w \<Rightarrow> (exn + string) \<times> 'w"
  messages_create :: "string \<Rightarrow> string \<Rightarrow> string \<Rightarrow> 'w \<Rightarrow> (exn + message) \<times> 'w"
  runs_create :: "string \<Rightarrow> string \<Rightarrow> 'w \<Rightarrow> (exn + run) \<times> 'w"
  runs_retrieve :: "string \<Rightarrow> string \<Rightarrow> 'w \<Rightarrow> (exn + run) \<times> 'w"
  messages_list :: "string \<Rightarrow> 'w \<Rightarrow> (exn + message list) \<times> 'w"
  onedrive_put :: "string \<Rightarrow> block list \<Rightarrow> 'w \<Rightarrow> (exn + nat \<times> (exn + string)) \<times> 'w"

subsection \<open>What the orchestrator does: its trace\<close>

text \<open>
  The log lines that carry data, by the place that writes them (the prompt numbers are
  \<open>i + 1\<close> and \<open>len(prompts)\<close>):
  \<^item> \<open>Thread_created\<close>: "Thread created with ID: ..."; \<open>Thread_failed\<close>: "Failed to create thread: ...";
  \<^item> \<open>Added_prompt\<close>: "Added prompt i/n to thread";
  \<^item> \<open>Add_prompt_failed\<close>: "Failed to add prompt i/n to thread: e";
  \<^item> \<open>Giving_up_prompt\<close>: "Giving up on prompt i/n: prompt";
  \<^item> \<open>Run_create_failed\<close>: "Failed to run thread for prompt i/n: e";
  \<^item> \<open>Giving_up_run\<close>: "Giving up on running thread for prompt i/n";
  \<^item> \<open>Run_failed\<close>: "Run for question i/n failed with status: ...";
  \<^item> \<open>Uploaded\<close>, \<open>Upload_failed\<close>, \<open>Upload_response\<close>: the lines of \<open>upload_to_onedrive\<close>;
  \<^item> \<open>Handle_request_error\<close>: "Error in handle_request: e".
  The progress lines that carry no data are left out.
\<close>

datatype log_msg =
    Thread_created string
  | Thread_failed exn
  | Added_prompt nat nat
  | Add_prompt_failed nat nat exn
  | Giving_up_prompt nat nat string
  | Run_create_failed nat nat exn
  | Giving_up_run nat nat
  | Run_failed nat nat string
  | Uploaded string
  | Upload_failed string nat
  | Upload_response string
  | Handle_request_error exn

text \<open>An event is a remote call the orchestrator makes (with its arguments), a
  \<^verbatim>\<open>time.sleep\<close> (in seconds) or a log line.\<close>

datatype event =
    Threads_create
  | Messages_create string string
  | Runs_create string string
  | Runs_retrieve string string
  | Messages_list string
  | Onedrive_put string "block list"
  | Sleep nat
  | Log_info log_msg
  | Log_error log_msg

text \<open>
  The state the orchestration threads through: the outside world, the trace so far, the
  transcript document \<open>chat_doc\<close> and the local variable \<open>sorted_messages\<close>, which is
  unbound (\<open>None\<close>) until its first assignment.
\<close>

record 'w ostate =
  world :: 'w
  trace :: "event list"
  chat_doc :: "block list"
  sorted_messages :: "message list option"

definition emit :: "event list \<Rightarrow> 'w ostate \<Rightarrow> 'w ostate" where
  "emit evs s = s\<lparr>trace := trace s @ evs\<rparr>"

text \<open>A remote call: the event is recorded and the world moves on, whatever the result.\<close>

definition remote :: "('w \<Rightarrow> 'a \<times> 'w) \<Rightarrow> event \<Rightarrow> 'w ostate \<Rightarrow> 'a \<times> 'w ostate" where
  "remote f ev s = (case f (world s) of (r, w) \<Rightarrow> (r, s\<lparr>world := w, trace := trace s @ [ev]\<rparr>))"

subsection \<open>The steps of one prompt\<close>

definition assistant_id :: string where
  "assistant_id = ''asst_Wcvq39x7iEhLkyTOxGuoMQR7''"

text \<open>
  Lines 137 to 151, entered with \<open>attempt = 0\<close>:
  \<^verbatim>\<open>
  while attempt < 3 and not success:
      try:
          message = client.beta.threads.messages.create(thread_id=thread_id, role="user", content=prompt)
          logging.info(...); success = True
      except Exception as e:
          logging.error(...); attempt += 1; time.sleep(1)
  \<close>
  The result is \<open>success\<close>.
\<close>

function submit_loop ::
  "'w services \<Rightarrow> string \<Rightarrow> nat \<Rightarrow> nat \<Rightarrow> string \<Rightarrow> nat \<Rightarrow> 'w ostate \<Rightarrow> bool \<times> 'w ostate"
  where
  "submit_loop c thread_id i n prompt attempt s =
     (if attempt < 3 then
        (case remote (messages_create c thread_id ''user'' prompt)
                (Messages_create thread_id prompt) s of
           (Inr msg, s') \<Rightarrow> (True, emit [Log_info (Added_prompt (i + 1) n)] s')
         | (Inl e, s') \<Rightarrow>
             submit_loop c thread_id i n prompt (attempt + 1)
               (emit [Log_error (Add_prompt_failed (i + 1) n e), Sleep 1] s'))
      else (False, s))"
  by pat_completeness auto
termination
  by (relation "measure (\<lambda>(c, thread_id, i, n, prompt, attempt, s). 3 - attempt)") auto

declare submit_loop.simps [simp del]

text \<open>Lines 157 to 169, the same loop around \<^verbatim>\<open>client.beta.threads.runs.create\<close>; the
  result is the run when one was created.\<close>

function run_loop ::
  "'w services \<Rightarrow> string \<Rightarrow> nat \<Rightarrow> nat \<Rightarrow> nat \<Rightarrow> 'w ostate \<Rightarrow> run option \<times> 'w ostate"
  where
  "run_loop c thread_id i n attempt s =
     (if attempt < 3 then
        (case remote (runs_create c thread_id assistant_id)
                (Runs_create thread_id assistant_id) s of
           (Inr r, s') \<Rightarrow> (Some r, s')
         | (Inl e, s') \<Rightarrow>
             run_loop c thread_id i n (attempt + 1)
               (emit [Log_error (Run_create_failed (i + 1) n e), Sleep 1] s'))
      else (None, s))"
  by pat_completeness auto
termination
  by (relation "measure (\<lambda>(c, thread_id, i, n, attempt, s). 3 - attempt)") auto

declare run_loop.simps [simp del]

text \<open>
  Lines 175 to 180, the poll loop. It has no bound: when the service never reports a
  status outside the three below the loop does not return, and the model's value is
  \<open>None\<close>. An exception of the retrieve call is not caught in the loop.
  \<^verbatim>\<open>
  while run.status in ['queued', 'in_progress', 'cancelling']:
      time.sleep(1)
      run = client.beta.threads.runs.retrieve(thread_id=thread_id, run_id=run.id)
  \<close>
\<close>

partial_function (option) poll ::
  "'w services \<Rightarrow> string \<Rightarrow> run \<Rightarrow> 'w ostate \<Rightarrow> ((exn + run) \<times> 'w ostate) option"
  where
  "poll c thread_id r s =
     (if status r \<in> set [''queued'', ''in_progress'', ''cancelling''] then
        (case remote (runs_retrieve c thread_id (run_id r))
                (Runs_retrieve thread_id (run_id r)) (emit [Sleep 1] s) of
           (Inl e, s') \<Rightarrow> Some (Inl e, s')
         | (Inr r', s') \<Rightarrow> poll c thread_id r' s')
      else Some (Inr r, s))"

text \<open>\<^verbatim>\<open>message.content[0].text.value\<close>.\<close>

definition first_text :: "message \<Rightarrow> exn + string" where
  "first_text m =
     (case content m of
        [] \<Rightarrow> Inl (IndexError ''list index out of range'')
      | Text_block t # _ \<Rightarrow> Inr t
      | Image_block # _ \<Rightarrow> Inl (AttributeError ''object has no attribute text''))"

text \<open>Lines 193 to 199: one paragraph per message appended to the transcript document,
  the role in bold and the text after it.\<close>

fun render_messages :: "message list \<Rightarrow> block list \<Rightarrow> exn + block list" where
  "render_messages [] doc = Inr doc"
| "render_messages (m # ms) doc =
     (case first_text m of
        Inl e \<Rightarrow> Inl e
      | Inr t \<Rightarrow>
          render_messages ms
            (doc @ [Paragraph
               [Docx_run ((if role m = ''user'' then ''User'' else ''Assistant'') @ '': '') True,
                Docx_run t False]]))"

text \<open>Lines 186 to 199: the message list is fetched, sorted by creation time (Python's
  \<open>sorted\<close> is stable, as \<open>sort_key\<close> is) and rendered into \<open>chat_doc\<close>. When a
  message has no text the rendering raises; the paragraphs added before it are left out
  of the model's state, since the exception ends \<open>handle_request\<close> and the document is
  never read again.\<close>

definition refresh_transcript ::
  "'w services \<Rightarrow> string \<Rightarrow> 'w ostate \<Rightarrow> (exn + unit) \<times> 'w ostate" where
  "refresh_transcript c thread_id s =
     (case remote (messages_list c thread_id) (Messages_list thread_id) s of
        (Inl e, s') \<Rightarrow> (Inl e, s')
      | (Inr messages_data, s') \<Rightarrow>
          (let sorted = sort_key created_at messages_data;
               s'' = s'\<lparr>sorted_messages := Some sorted\<rparr>
           in case render_messages sorted (chat_doc s'') of
                Inl e \<Rightarrow> (Inl e, s'')
              | Inr doc \<Rightarrow> (Inr (), s''\<lparr>chat_doc := doc\<rparr>)))"

text \<open>
  The body of the loop over the prompts (lines 137 to 199) for prompt number \<open>i\<close> of \<open>n\<close>.
  \<open>Inr ()\<close> is the normal end of the body, by a \<^verbatim>\<open>continue\<close> or at its last line;
  \<open>Inl e\<close> is an exception that leaves the loop; \<open>None\<close> is a poll that never returns.
\<close>

definition process_prompt ::
  "'w services \<Rightarrow> string \<Rightarrow> nat \<Rightarrow> nat \<times> string \<Rightarrow> 'w ostate \<Rightarrow> ((exn + unit) \<times> 'w ostate) option"
  where
  "process_prompt c thread_id n ip s =
     (case ip of (i, prompt) \<Rightarrow>
        (case submit_loop c thread_id i n prompt 0 s of
           (False, s1) \<Rightarrow>
             Some (Inr (), emit [Log_error (Giving_up_prompt (i + 1) n prompt)] s1)
         | (True, s1) \<Rightarrow>
             (case run_loop c thread_id i n 0 s1 of
                (None, s2) \<Rightarrow> Some (Inr (), emit [Log_error (Giving_up_run (i + 1) n)] s2)
              | (Some r, s2) \<Rightarrow>
                  (case poll c thread_id r s2 of
                     None \<Rightarrow> None
                   | Some (Inl e, s3) \<Rightarrow> Some (Inl e, s3)
                   | Some (Inr r', s3) \<Rightarrow>
                       if status r' \<noteq> ''completed'' then
                         Some (Inr (), emit [Log_error (Run_failed (i + 1) n (status r'))] s3)
                       else Some (refresh_transcript c thread_id s3)))))"

text \<open>\<^verbatim>\<open>for i, prompt in enumerate(prompts)\<close>, over the enumerated prompts still to do.\<close>

fun run_prompts ::
  "'w services \<Rightarrow> string \<Rightarrow> nat \<Rightarrow> (nat \<times> string) list \<Rightarrow> 'w ostate \<Rightarrow>
     ((exn + unit) \<times> 'w ostate) option"
  where
  "run_prompts c thread_id n [] s = Some (Inr (), s)"
| "run_prompts c thread_id n (ip # rest) s =
     (case process_prompt c thread_id n ip s of
        None \<Rightarrow> None
      | Some (Inl e, s') \<Rightarrow> Some (Inl e, s')
      | Some (Inr u, s') \<Rightarrow> run_prompts c thread_id n rest s')"

subsection \<open>The documents and their upload\<close>

text \<open>
  \<open>upload_to_onedrive\<close>: the PUT, then a log line by the status code; on a failure
  status the response's JSON is logged too, and reading it may raise.
\<close>

definition upload_to_onedrive ::
  "'w services \<Rightarrow> block list \<Rightarrow> string \<Rightarrow> 'w ostate \<Rightarrow> (exn + unit) \<times> 'w ostate" where
  "upload_to_onedrive c file_stream file_name s =
     (case remote (onedrive_put c file_name file_stream) (Onedrive_put file_name file_stream) s of
        (Inl e, s') \<Rightarrow> (Inl e, s')
      | (Inr (code, response_json), s') \<Rightarrow>
          if code \<in> set [200, 201] then (Inr (), emit [Log_info (Uploaded file_name)] s')
          else
            (case response_json of
               Inl e \<Rightarrow> (Inl e, emit [Log_error (Upload_failed file_name code)] s')
             | Inr j \<Rightarrow>
                 (Inr (), emit [Log_error (Upload_failed file_name code),
                                Log_error (Upload_response j)] s')))"

text \<open>
  Line 207:
  \<^verbatim>\<open>
  last_response = sorted_messages[-1].content[0].text.value if sorted_messages else "No response available."
  \<close>
  The condition reads the local variable \<open>sorted_messages\<close>; reading it before any
  assignment raises UnboundLocalError.
\<close>

definition sorted_messages_unbound :: exn where
  "sorted_messages_unbound =
     UnboundLocalError
       ''cannot access local variable sorted_messages where it is not associated with a value''"

definition last_response :: "message list option \<Rightarrow> exn + string" where
  "last_response sm =
     (case sm of
        None \<Rightarrow> Inl sorted_messages_unbound
      | Some msgs \<Rightarrow> if msgs \<noteq> [] then first_text (last msgs) else Inr ''No response available.'')"

text \<open>Lines 201 to 217: the draft document from the last response, then both uploads.\<close>

definition finish_request :: "'w services \<Rightarrow> 'w ostate \<Rightarrow> (exn + unit) \<times> 'w ostate" where
  "finish_request c s =
     (case last_response (sorted_messages s) of
        Inl e \<Rightarrow> (Inl e, s)
      | Inr response_text \<Rightarrow>
          (let draft_doc = add_formatted_content [Heading ''Draft Proposal'' 0] response_text
           in case upload_to_onedrive c (chat_doc s) ''chat_history.docx'' s of
                (Inl e, s') \<Rightarrow> (Inl e, s')
              | (Inr u, s') \<Rightarrow> upload_to_onedrive c draft_doc ''draft_response.docx'' s'))"

subsection \<open>\<open>handle_request\<close>\<close>

text \<open>
  \<open>adls_file_contents\<close> is the outcome of lines 53 to 109 (configuration, token, listing,
  download, archive and extraction of the attachments): the extracted texts, or the
  exception one of those steps raised. From there on the model follows the source: the
  chunks, the prompts, the thread, the loop over the prompts, the documents, the
  uploads. The \<^verbatim>\<open>except Exception\<close> around the whole body logs and raises again.
\<close>

definition handle_request_body ::
  "'w services \<Rightarrow> exn + string list \<Rightarrow> 'w ostate \<Rightarrow> ((exn + unit) \<times> 'w ostate) option" where
  "handle_request_body c adls_file_contents s0 =
     (case adls_file_contents of
        Inl e \<Rightarrow> Some (Inl e, s0)
      | Inr file_contents \<Rightarrow>
          (let chunks = make_chunks file_contents;
               prompts = build_prompts chunks
           in case remote (threads_create c) Threads_create s0 of
                (Inl e, s1) \<Rightarrow> Some (Inl e, emit [Log_error (Thread_failed e)] s1)
              | (Inr thread_id, s1) \<Rightarrow>
                  (case run_prompts c thread_id (length prompts) (enumerate 0 prompts)
                          ((emit [Log_info (Thread_created thread_id)] s1)
                             \<lparr>chat_doc := [Heading ''Chat History'' 0]\<rparr>) of
                     None \<Rightarrow> None
                   | Some (Inl e, s2) \<Rightarrow> Some (Inl e, s2)
                   | Some (Inr u, s2) \<Rightarrow> Some (finish_request c s2))))"

definition handle_request ::
  "'w services \<Rightarrow> exn + string list \<Rightarrow> 'w \<Rightarrow> ((exn + unit) \<times> 'w ostate) option" where
  "handle_request c adls_file_contents w =
     (case handle_request_body c adls_file_contents
             \<lparr>world = w, trace = [], chat_doc = [], sorted_messages = None\<rparr> of
        None \<Rightarrow> None
      | Some (Inl e, s) \<Rightarrow> Some (Inl e, emit [Log_error (Handle_request_error e)] s)
      | Some (Inr u, s) \<Rightarrow> Some (Inr u, s))"

subsection \<open>Reading a trace\<close>

fun is_messages_create :: "event \<Rightarrow> bool" where
  "is_messages_create (Messages_create thread_id prompt) = True"
| "is_messages_create ev = False"

fun is_runs_create :: "event \<Rightarrow> bool" where
  "is_runs_create (Runs_create thread_id a) = True"
| "is_runs_create ev = False"

fun is_runs_retrieve :: "event \<Rightarrow> bool" where
  "is_runs_retrieve (Runs_retrieve thread_id r) = True"
| "is_runs_retrieve ev = False"

fun is_messages_list :: "event \<Rightarrow> bool" where
  "is_messages_list (Messages_list thread_id) = True"
| "is_messages_list ev = False"

fun is_onedrive_put :: "event \<Rightarrow> bool" where
  "is_onedrive_put (Onedrive_put file_name doc) = True"
| "is_onedrive_put ev = False"

fun is_sleep :: "event \<Rightarrow> bool" where
  "is_sleep (Sleep seconds) = True"
| "is_sleep ev = False"

text \<open>The two log lines that give a prompt up after its retries.\<close>

fun is_giving_up :: "event \<Rightarrow> bool" where
  "is_giving_up (Log_error (Giving_up_prompt i n prompt)) = True"
| "is_giving_up (Log_error (Giving_up_run i n)) = True"
| "is_giving_up ev = False"

definition calls :: "(event \<Rightarrow> bool) \<Rightarrow> event list \<Rightarrow> nat" where
  "calls P evs = length (filter P evs)"

fun is_log :: "event \<Rightarrow> bool" where
  "is_log (Log_info l) = True"
| "is_log (Log_error l) = True"
| "is_log ev = False"

text \<open>The remote calls and sleeps of a trace, in order, without the log lines.\<close>

definition actions :: "event list \<Rightarrow> event list" where
  "actions evs = filter (\<lambda>ev. \<not> is_log ev) evs"

text \<open>The events a step adds to the trace: those of the later state \<open>s'\<close> that the
  earlier state \<open>s\<close> does not have yet.\<close>

definition new_events :: "'w ostate \<Rightarrow> 'w ostate \<Rightarrow> event list" where
  "new_events s s' = drop (length (trace s)) (trace s')"

text \<open>\<open>appended s evs s'\<close>: from \<open>s\<close> to \<open>s'\<close> the trace grew by exactly \<open>evs\<close>.
  \<open>same_documents s s'\<close>: the transcript document and \<open>sorted_messages\<close> are as they were.\<close>

definition appended :: "'w ostate \<Rightarrow> event list \<Rightarrow> 'w ostate \<Rightarrow> bool" where
  "appended s evs s' \<longleftrightarrow> trace s' = trace s @ evs"

definition same_documents :: "'w ostate \<Rightarrow> 'w ostate \<Rightarrow> bool" where
  "same_documents s s' \<longleftrightarrow>
     chat_doc s' = chat_doc s \<and> sorted_messages s' = sorted_messages s"

subsection \<open>A scripted service for concrete runs\<close>

text \<open>
  A stand-in for the remote services, for running the model on concrete inputs. Its
  world is a clock and the messages of the one thread. Submitting a prompt appends a
  user message when \<open>submit_ok\<close> and raises otherwise; creating a run returns a queued
  run when \<open>run_ok\<close> and raises otherwise; retrieving the run reports \<open>final_status\<close>, and
  when that is \<open>completed\<close> the assistant's reply is on the thread. Listing returns the
  newest message first, the service's default order. Uploads succeed.
\<close>

record mock_world =
  clock :: int
  thread :: "message list"

definition mock :: "bool \<Rightarrow> bool \<Rightarrow> string \<Rightarrow> mock_world services" where
  "mock submit_ok run_ok final_status =
     \<lparr> threads_create = (\<lambda>w. (Inr ''thread_1'', w)),
       messages_create = (\<lambda>thread_id r txt w.
          if submit_ok then
            (Inr \<lparr>role = r, created_at = clock w, content = [Text_block txt]\<rparr>,
             w\<lparr>clock := clock w + 1,
               thread := thread w @ [\<lparr>role = r, created_at = clock w, content = [Text_block txt]\<rparr>]\<rparr>)
          else (Inl (Exception ''connection error''), w)),
       runs_create = (\<lambda>thread_id a w.
          if run_ok then (Inr \<lparr>run_id = ''run_1'', status = ''queued''\<rparr>, w)
          else (Inl (Exception ''rate limit''), w)),
       runs_retrieve = (\<lambda>thread_id rid w.
          (Inr \<lparr>run_id = rid, status = final_status\<rparr>,
           if final_status = ''completed'' then
             w\<lparr>clock := clock w + 1,
               thread := thread w @
                 [\<lparr>role = ''assistant'', created_at = clock w,
                   content = [Text_block ''**Proposal** text'']\<rparr>]\<rparr>
           else w)),
       messages_list = (\<lambda>thread_id w. (Inr (rev (thread w)), w)),
       onedrive_put = (\<lambda>file_name doc w. (Inr (201, Inr ''{}''), w)) \<rparr>"

definition mock_start :: mock_world where
  "mock_start = \<lparr>clock = 1000, thread = []\<rparr>"

text \<open>The state at the first prompt of such a run: nothing traced yet, the transcript
  document holding its heading, \<open>sorted_messages\<close> unbound.\<close>

definition start_state :: "mock_world ostate" where
  "start_state =
     \<lparr>world = mock_start, trace = [], chat_doc = [Heading ''Chat History'' 0],
      sorted_messages = None\<rparr>"

text \<open>
  One prompt (\<open>hello\<close>, the only prompt of its batch) against the service whose run
  ends with status \<open>failed\<close>: the states after the submission, after the creation of
  the run and after the poll loop.
\<close>

definition after_submit :: "mock_world ostate" where
  "after_submit =
     start_state
       \<lparr>world :=
          \<lparr>clock = 1001,
           thread = [\<lparr>role = ''user'', created_at = 1000, content = [Text_block ''hello'']\<rparr>]\<rparr>,
        trace := [Messages_create ''thread_1'' ''hello'', Log_info (Added_prompt 1 1)]\<rparr>"

definition after_run :: "mock_world ostate" where
  "after_run = after_submit\<lparr>trace := trace after_submit @ [Runs_create ''thread_1'' assistant_id]\<rparr>"

definition after_poll :: "mock_world ostate" where
  "after_poll = after_run\<lparr>trace := trace after_run @ [Sleep 1, Runs_retrieve ''thread_1'' ''run_1'']\<rparr>"

section \<open>Chunking is a lossless partition\<close>

lemma concat_slices_from:
  "0 < step \<Longrightarrow> stop = length s \<Longrightarrow>
   concat (map (\<lambda>i. py_slice s i (i + step)) (py_range i stop step)) = drop i s"
proof (induction i stop step rule: py_range.induct)
  case (1 i stop step)
  show ?case
  proof (cases "i < stop")
    case True
    have "take step (drop i s) @ drop (i + step) s = drop i s"
      by (metis add.commute append_take_drop_id drop_drop)
    with True 1 show ?thesis
      by (simp add: py_range.simps [of i] py_slice_def)
  next
    case False
    with 1 show ?thesis by (simp add: py_range.simps [of i])
  qed
qed

lemma py_range_nth:
  "k < length (py_range i stop step) \<Longrightarrow> py_range i stop step ! k = i + k * step"
proof (induction i stop step arbitrary: k rule: py_range.induct)
  case (1 i stop step)
  show ?case
  proof (cases "0 < step \<and> i < stop")
    case True
    with 1 show ?thesis
      by (cases k) (simp_all add: py_range.simps [of i])
  next
    case False
    with 1(2) show ?thesis by (simp add: py_range.simps [of i])
  qed
qed

lemma py_range_less:
  "j \<in> set (py_range i stop step) \<Longrightarrow> j < stop"
proof (induction i stop step rule: py_range.induct)
  case (1 i stop step)
  then show ?case
    by (cases "0 < step \<and> i < stop") (auto simp: py_range.simps [of i])
qed

lemma fold_extend:
  "fold (\<lambda>x acc. acc @ f x) xs a = a @ concat (map f xs)"
  by (induction xs arbitrary: a) simp_all

lemma make_chunks_concat:
  "make_chunks files = concat (map (chunks_of chunk_size) files)"
  by (simp add: make_chunks_def fold_extend)

lemma concat_chunks_of:
  "0 < csize \<Longrightarrow> concat (chunks_of csize s) = s"
  using concat_slices_from [of csize "length s" s 0] by (simp add: chunks_of_def)

lemma chunks_of_nth:
  assumes "k < length (chunks_of csize s)"
  shows "chunks_of csize s ! k = take csize (drop (k * csize) s)"
proof -
  from assms have k: "k < length (py_range 0 (length s) csize)"
    by (simp add: chunks_of_def)
  then have "py_range 0 (length s) csize ! k = k * csize"
    using py_range_nth [of k 0 "length s" csize] by simp
  with k show ?thesis by (simp add: chunks_of_def py_slice_def)
qed

lemma chunks_of_member:
  assumes "c \<in> set (chunks_of csize s)"
  shows "length c \<le> csize \<and> c \<noteq> []"
proof -
  from assms obtain i where i: "i \<in> set (py_range 0 (length s) csize)"
    and c: "c = py_slice s i (i + csize)"
    by (auto simp: chunks_of_def)
  from i have "i < length s" by (rule py_range_less)
  moreover from i have "0 < csize"
    by (cases "0 < csize") (simp_all add: py_range.simps [of 0])
  ultimately show ?thesis using c by (simp add: py_slice_def)
qed

text \<open>
  C5. With the fixed threshold 100000, for every text \<open>s\<close>: the chunks of \<open>s\<close> concatenated
  in order give \<open>s\<close> back; no chunk is longer than the threshold (and none is empty); chunk
  number \<open>k\<close> is exactly the characters of \<open>s\<close> from offset \<open>k * 100000\<close> up to the next
  multiple of the threshold, so the chunks are consecutive, disjoint and in offset
  order; the empty text has no chunks; and the flat chunk list of several texts is the
  chunks of each text in the order of the texts.
\<close>

theorem chunking_lossless_partition:
  fixes s :: "'a list"
  shows "chunk_size = 100000 \<and>
    concat (chunks_of chunk_size s) = s \<and>
    (\<forall>c \<in> set (chunks_of chunk_size s). length c \<le> 100000 \<and> c \<noteq> []) \<and>
    (\<forall>k < length (chunks_of chunk_size s).
        chunks_of chunk_size s ! k = take 100000 (drop (k * 100000) s)) \<and>
    chunks_of chunk_size ([] :: 'a list) = [] \<and>
    make_chunks files = concat (map (chunks_of chunk_size) files) \<and>
    concat (make_chunks files) = concat files"
proof -
  have size: "chunk_size = 100000" by (simp add: chunk_size_def)
  have "concat (chunks_of chunk_size s) = s"
    by (rule concat_chunks_of) (simp add: size)
  moreover have "\<forall>c \<in> set (chunks_of chunk_size s). length c \<le> 100000 \<and> c \<noteq> []"
    using chunks_of_member [of _ chunk_size s] by (simp add: size)
  moreover have "\<forall>k < length (chunks_of chunk_size s).
      chunks_of chunk_size s ! k = take 100000 (drop (k * 100000) s)"
    using chunks_of_nth [of _ chunk_size s] by (simp add: size)
  moreover have "chunks_of chunk_size ([] :: 'a list) = []"
    by (simp add: chunks_of_def py_range.simps)
  moreover have "concat (make_chunks files) = concat files"
  proof -
    have "concat (concat (map (chunks_of chunk_size) files)) = concat files"
      by (induction files) (simp_all add: concat_chunks_of size)
    then show ?thesis by (simp add: make_chunks_concat)
  qed
  ultimately show ?thesis using size make_chunks_concat by blast
qed

theorem chunking_lossless_partition_witness:
  "concat (chunks_of chunk_size ''proposal'') = ''proposal'' \<and>
   chunks_of chunk_size ''proposal'' = [''proposal''] \<and>
   ''proposal'' \<in> set (chunks_of chunk_size ''proposal'') \<and>
   length ''proposal'' \<le> (100000 :: nat) \<and>
   (0 :: nat) < length (chunks_of chunk_size ''proposal'') \<and>
   chunks_of chunk_size ''proposal'' ! 0 = take 100000 (drop (0 * 100000) ''proposal'')"
proof -
  have one: "chunks_of chunk_size ''proposal'' = [''proposal'']"
    by (simp add: chunks_of_def chunk_size_def py_range.simps py_slice_def)
  show ?thesis
    using chunking_lossless_partition [of "''proposal''" "[]"] one by simp
qed

section \<open>The prompt sequence\<close>

lemma length_build_prompts: "length (build_prompts chunks) = length chunks + 4"
  by (simp add: build_prompts_def)

lemma build_prompts_nth:
  assumes "k < length chunks"
  shows "build_prompts chunks ! k = ack_prompt k (chunks ! k)"
  using assms by (simp add: build_prompts_def nth_append nth_enumerate_eq)

lemma build_prompts_drop:
  "drop (length chunks) (build_prompts chunks) =
     [rfp_analysis_prompt, customer_problem_prompt, full_draft_prompt, final_proposal_prompt]"
  by (simp add: build_prompts_def)

lemma chunks_of_50:
  assumes "length a = 50"
  shows "chunks_of chunk_size a = [a]"
  using assms by (simp add: chunks_of_def chunk_size_def py_range.simps py_slice_def)

lemma chunks_of_150000:
  assumes "length b = 150000"
  shows "chunks_of chunk_size b = [take 100000 b, drop 100000 b]"
  using assms by (simp add: chunks_of_def chunk_size_def py_range.simps py_slice_def)

lemma scenario_chunks:
  assumes "length a = 50" and "length b = 150000"
  shows "make_chunks [a, b] = [a, take 100000 b, drop 100000 b]"
  using assms by (simp add: make_chunks_concat chunks_of_50 chunks_of_150000)

lemma build_prompts_three:
  "build_prompts [x, y, z] =
     [ack_prompt 0 x, ack_prompt 1 y, ack_prompt 2 z,
      rfp_analysis_prompt, customer_problem_prompt, full_draft_prompt, final_proposal_prompt]"
  by (simp add: build_prompts_def numeral_2_eq_2)

text \<open>
  C6. The prompt sequence is one content-acknowledgment prompt per chunk, in chunk order
  and numbered from 1, followed by the four fixed analysis prompts in their fixed
  order. For two texts of 50 and 150000 characters the chunks are the first text, the
  first 100000 characters of the second and its remaining 50000, and the prompts are
  the three acknowledgment prompts for them followed by the four fixed ones, 7 in all.
\<close>

theorem prompt_sequence_order:
  "length (build_prompts chunks) = length chunks + 4 \<and>
   (\<forall>k < length chunks.
      build_prompts chunks ! k =
        ''Please acknowledge and save the following content chunk '' @ str_nat (k + 1) @
        '':\<newline>'' @ chunks ! k) \<and>
   drop (length chunks) (build_prompts chunks) =
     [rfp_analysis_prompt, customer_problem_prompt, full_draft_prompt, final_proposal_prompt] \<and>
   (length a = 50 \<and> length b = 150000 \<longrightarrow>
      make_chunks [a, b] = [a, take 100000 b, drop 100000 b] \<and>
      map length (make_chunks [a, b]) = [50, 100000, 50000] \<and>
      length (build_prompts (make_chunks [a, b])) = 7 \<and>
      build_prompts (make_chunks [a, b]) =
        [ack_prompt 0 a, ack_prompt 1 (take 100000 b), ack_prompt 2 (drop 100000 b),
         rfp_analysis_prompt, customer_problem_prompt, full_draft_prompt,
         final_proposal_prompt])"
proof -
  have "\<forall>k < length chunks.
      build_prompts chunks ! k =
        ''Please acknowledge and save the following content chunk '' @ str_nat (k + 1) @
        '':\<newline>'' @ chunks ! k"
    using build_prompts_nth [of _ chunks] by (simp add: ack_prompt_def)
  moreover have "length a = 50 \<and> length b = 150000 \<longrightarrow>
      make_chunks [a, b] = [a, take 100000 b, drop 100000 b] \<and>
      map length (make_chunks [a, b]) = [50, 100000, 50000] \<and>
      length (build_prompts (make_chunks [a, b])) = 7 \<and>
      build_prompts (make_chunks [a, b]) =
        [ack_prompt 0 a, ack_prompt 1 (take 100000 b), ack_prompt 2 (drop 100000 b),
         rfp_analysis_prompt, customer_problem_prompt, full_draft_prompt,
         final_proposal_prompt]"
    by (simp add: scenario_chunks build_prompts_three)
  ultimately show ?thesis
    using length_build_prompts [of chunks] build_prompts_drop [of chunks] by blast
qed

theorem prompt_sequence_order_witness:
  "length (replicate 50 (CHR ''a'')) = 50 \<and>
   length (replicate 150000 (CHR ''b'')) = 150000 \<and>
   map length (make_chunks [replicate 50 (CHR ''a''), replicate 150000 (CHR ''b'')]) =
     [50, 100000, 50000] \<and>
   length (build_prompts
     (make_chunks [replicate 50 (CHR ''a''), replicate 150000 (CHR ''b'')])) = 7 \<and>
   (1 :: nat) < length [''first chunk'', ''second chunk''] \<and>
   build_prompts [''first chunk'', ''second chunk''] ! 1 =
     ''Please acknowledge and save the following content chunk 2:\<newline>second chunk''"
proof -
  let ?a = "replicate 50 (CHR ''a'')" and ?b = "replicate 150000 (CHR ''b'')"
  let ?two = "[''first chunk'', ''second chunk'']"
  have la: "length ?a = 50" and lb: "length ?b = 150000"
    by simp_all
  from prompt_sequence_order [of "[]" ?a ?b] la lb
  have scenario: "map length (make_chunks [?a, ?b]) = [50, 100000, 50000] \<and>
      length (build_prompts (make_chunks [?a, ?b])) = 7"
    by blast
  have k: "(1 :: nat) < length ?two"
    by simp
  have two: "str_nat (1 + 1) = ''2''"
    by (simp add: str_nat.simps)
  from prompt_sequence_order [of ?two "[]" "[]"] k
  have "build_prompts ?two ! 1 =
      ''Please acknowledge and save the following content chunk '' @ str_nat (1 + 1) @
      '':\<newline>'' @ ?two ! 1"
    by blast
  with two have second: "build_prompts ?two ! 1 =
      ''Please acknowledge and save the following content chunk 2:\<newline>second chunk''"
    by simp
  from la lb scenario k second show ?thesis
    by blast
qed

section \<open>The emphasis-markup renderer\<close>

lemma marker_prefix_append:
  "prefix ''**'' ((x # xs) @ ''**'' @ rest) = prefix ''**'' ((x # xs) @ ''*'')"
  by (cases xs) auto

lemma find_marker_at:
  "find_sub ''**'' (pre @ ''*'') = None \<Longrightarrow>
   find_sub ''**'' (pre @ ''**'' @ rest) = Some (length pre)"
proof (induction pre)
  case Nil
  then show ?case by simp
next
  case (Cons x xs)
  from Cons.prems have no: "\<not> prefix ''**'' ((x # xs) @ ''*'')"
    and rec: "find_sub ''**'' (xs @ ''*'') = None"
    by (auto split: if_splits)
  have "\<not> prefix ''**'' ((x # xs) @ ''**'' @ rest)"
    unfolding marker_prefix_append by (rule no)
  with Cons.IH [OF rec] show ?case by simp
qed

lemma py_find_0: "py_find s sub 0 = find_sub sub s"
  by (cases "find_sub sub s") (simp_all add: py_find_def)

lemma format_runs_plain:
  "find_sub ''**'' p = None \<Longrightarrow> format_runs p = [Docx_run p False]"
  by (subst format_runs.simps) (simp add: py_find_0)

lemma drop_past: "n = length xs \<Longrightarrow> drop n (xs @ ys) = ys"
  by simp

lemma format_runs_pair:
  assumes "find_sub ''**'' (pre @ ''*'') = None" and "find_sub ''**'' (mid @ ''*'') = None"
  shows "format_runs (pre @ ''**'' @ mid @ ''**'' @ rest) =
           Docx_run pre False # Docx_run mid True # format_runs rest"
proof -
  let ?p = "pre @ ''**'' @ mid @ ''**'' @ rest"
  have start: "py_find ?p ''**'' 0 = Some (length pre)"
    using find_marker_at [OF assms(1), of "mid @ ''**'' @ rest"] by (simp add: py_find_0)
  have after: "drop (length pre + 2) ?p = mid @ ''**'' @ rest"
    using drop_past [of "length pre + 2" "pre @ ''**''" "mid @ ''**'' @ rest"] by simp
  then have stop: "py_find ?p ''**'' (length pre + 2) = Some (length pre + 2 + length mid)"
    using find_marker_at [OF assms(2), of rest] by (simp add: py_find_def)
  have unfolded: "format_runs ?p =
      Docx_run (take (length pre) ?p) False
      # Docx_run (py_slice ?p (length pre + 2) (length pre + 2 + length mid)) True
      # format_runs (drop (length pre + 2 + length mid + 2) ?p)"
    by (subst format_runs.simps [of ?p]) (simp only: start stop option.case)
  have "take (length pre) ?p = pre"
    by simp
  moreover have "py_slice ?p (length pre + 2) (length pre + 2 + length mid) = mid"
    by (simp add: py_slice_def)
  moreover have "drop (length pre + 2 + length mid + 2) ?p = rest"
    using drop_past [of "length pre + 2 + length mid + 2" "pre @ ''**'' @ mid @ ''**''" rest]
    by simp
  ultimately show ?thesis
    using unfolded by (simp only:)
qed

lemma format_runs_unpaired:
  assumes "find_sub ''**'' (pre @ ''*'') = None" and "find_sub ''**'' rest = None"
  shows "format_runs (pre @ ''**'' @ rest) = [Docx_run (pre @ ''**'' @ rest) False]"
proof -
  let ?p = "pre @ ''**'' @ rest"
  have start: "py_find ?p ''**'' 0 = Some (length pre)"
    using find_marker_at [OF assms(1), of rest] by (simp add: py_find_0)
  have "drop (length pre + 2) ?p = rest"
    using drop_past [of "length pre + 2" "pre @ ''**''" rest] by simp
  with assms(2) have stop: "py_find ?p ''**'' (length pre + 2) = None"
    by (simp add: py_find_def)
  show ?thesis
    by (subst format_runs.simps [of ?p]) (simp only: start stop option.case)
qed

lemma example_paired:
  "format_runs ''a **b** c'' =
     [Docx_run ''a '' False, Docx_run ''b'' True, Docx_run '' c'' False]"
proof -
  have "format_runs (''a '' @ ''**'' @ ''b'' @ ''**'' @ '' c'') =
      Docx_run ''a '' False # Docx_run ''b'' True # format_runs '' c''"
    by (rule format_runs_pair) simp_all
  moreover have "format_runs '' c'' = [Docx_run '' c'' False]"
    by (rule format_runs_plain) simp
  ultimately show ?thesis by simp
qed

lemma example_unpaired:
  "format_runs ''a **b'' = [Docx_run ''a **b'' False]"
  using format_runs_unpaired [of "''a ''" "''b''"] by simp


lemma find_sub_sound:
  "find_sub sub s = Some k \<Longrightarrow> prefix sub (drop k s)"
proof (induction s arbitrary: k)
  case Nil
  then show ?case by (simp split: if_splits)
next
  case (Cons x xs)
  show ?case
  proof (cases "prefix sub (x # xs)")
    case True
    with Cons.prems show ?thesis by simp
  next
    case False
    with Cons.prems obtain j where "find_sub sub xs = Some j" and "k = Suc j"
      by auto
    with Cons.IH show ?thesis by simp
  qed
qed

lemma py_find_sound:
  assumes "py_find s sub start = Some e"
  shows "start \<le> e \<and> e + length sub \<le> length s \<and> prefix sub (drop e s)
    \<and> find_sub sub (drop start s) = Some (e - start)"
proof -
  from assms obtain k where k: "find_sub sub (drop start s) = Some k" and e: "e = start + k"
    and le: "start \<le> length s"
    by (auto simp: py_find_def split: if_splits)
  from find_sub_sound [OF k] have "prefix sub (drop e s)"
    by (simp add: e add.commute)
  moreover from find_sub_bound [OF k] le have "e + length sub \<le> length s"
    by (simp add: e)
  ultimately show ?thesis using k e by simp
qed

lemma marker_split:
  assumes "prefix ''**'' (drop k s)"
  shows "drop k s = ''**'' @ drop (k + 2) s"
proof -
  from assms obtain zs where zs: "drop k s = ''**'' @ zs"
    by (auto simp: prefix_def)
  have "drop (k + 2) s = drop 2 (drop k s)"
    by (simp add: add.commute)
  with zs show ?thesis by simp
qed

lemma run_markup_simps:
  "run_markup (Docx_run x False) = x"
  "run_markup (Docx_run x True) = ''**'' @ x @ ''**''"
  by (simp_all add: run_markup_def)

lemma format_runs_markup:
  "concat (map run_markup (format_runs p)) = p"
proof (induction p rule: format_runs.induct)
  case (1 p)
  show ?case
  proof (cases "py_find p ''**'' 0")
    case None
    then show ?thesis
      by (subst format_runs.simps) (simp add: run_markup_simps)
  next
    case (Some s)
    note start = this
    show ?thesis
    proof (cases "py_find p ''**'' (s + 2)")
      case None
      with start show ?thesis
        by (subst format_runs.simps) (simp add: run_markup_simps)
    next
      case (Some e)
      from py_find_sound [OF start] have s1: "drop s p = ''**'' @ drop (s + 2) p"
        by (simp add: marker_split)
      from py_find_sound [OF Some] have le: "s + 2 \<le> e"
        and e1: "drop e p = ''**'' @ drop (e + 2) p"
        by (simp_all add: marker_split)
      have mid: "drop (s + 2) p = py_slice p (s + 2) e @ drop e p"
      proof -
        have "e - (s + 2) + (s + 2) = e"
          using le by arith
        then have "drop e p = drop (e - (s + 2)) (drop (s + 2) p)"
          by (simp only: drop_drop)
        then show ?thesis
          by (simp only: py_slice_def append_take_drop_id)
      qed
      have "p = take s p @ drop s p"
        by simp
      also have "\<dots> = take s p @ ''**'' @ py_slice p (s + 2) e @ ''**'' @ drop (e + 2) p"
        by (simp only: s1 mid e1)
      finally have whole: "take s p @ ''**'' @ py_slice p (s + 2) e @ ''**'' @ drop (e + 2) p = p"
        by simp
      have "format_runs p =
          Docx_run (take s p) False # Docx_run (py_slice p (s + 2) e) True
          # format_runs (drop (e + 2) p)"
        by (subst format_runs.simps) (simp only: start Some option.case)
      then have "concat (map run_markup (format_runs p)) =
          take s p @ ''**'' @ py_slice p (s + 2) e @ ''**'' @ drop (e + 2) p"
        using "1.IH" [OF start Some] by (simp add: run_markup_simps)
      with whole show ?thesis by simp
    qed
  qed
qed

lemma format_runs_bold_count:
  "length (filter bold (format_runs p)) = count_markers p div 2"
proof (induction p rule: format_runs.induct)
  case (1 p)
  show ?case
  proof (cases "py_find p ''**'' 0")
    case None
    then have "find_sub ''**'' p = None" by (simp add: py_find_0)
    then have "count_markers p = 0"
      by (subst count_markers.simps) simp
    moreover from None have "format_runs p = [Docx_run p False]"
      by (subst format_runs.simps) simp
    ultimately show ?thesis by simp
  next
    case (Some s)
    note start = this
    then have first: "find_sub ''**'' p = Some s" by (simp add: py_find_0)
    show ?thesis
    proof (cases "py_find p ''**'' (s + 2)")
      case None
      from py_find_sound [OF start] have "s + 2 \<le> length p" by simp
      with None have "find_sub ''**'' (drop (s + 2) p) = None"
        by (simp add: py_find_def)
      then have "count_markers (drop (s + 2) p) = 0"
        by (subst count_markers.simps) simp
      with first have "count_markers p = 1"
        by (subst count_markers.simps) simp
      moreover from start None have "format_runs p = [Docx_run p False]"
        by (subst format_runs.simps) simp
      ultimately show ?thesis by simp
    next
      case (Some e)
      from py_find_sound [OF Some] have le: "s + 2 \<le> e"
        and second: "find_sub ''**'' (drop (s + 2) p) = Some (e - (s + 2))"
        by simp_all
      have "e - (s + 2) + 2 + (s + 2) = e + 2"
        using le by arith
      then have "drop (e - (s + 2) + 2) (drop (s + 2) p) = drop (e + 2) p"
        by (simp only: drop_drop)
      with second have "count_markers (drop (s + 2) p) = 1 + count_markers (drop (e + 2) p)"
        by (subst count_markers.simps) simp
      with first have "count_markers p = 2 + count_markers (drop (e + 2) p)"
        by (subst count_markers.simps) simp
      moreover have "format_runs p =
          Docx_run (take s p) False # Docx_run (py_slice p (s + 2) e) True
          # format_runs (drop (e + 2) p)"
        by (subst format_runs.simps) (simp only: start Some option.case)
      ultimately show ?thesis
        using "1.IH" [OF start Some] by simp
    qed
  qed
qed

lemma add_formatted_content_paragraphs:
  "add_formatted_content doc content_text =
     doc @ map (\<lambda>paragraph. Paragraph (format_runs paragraph))
             (py_split (CHR ''\<newline>'') content_text)"
proof -
  have "fold (\<lambda>paragraph doc. doc @ [Paragraph (format_runs paragraph)]) ps doc =
      doc @ map (\<lambda>paragraph. Paragraph (format_runs paragraph)) ps" for ps
    by (induction ps arbitrary: doc) simp_all
  then show ?thesis by (simp add: add_formatted_content_def)
qed

text \<open>
  C7. The renderer reads paired \<open>**\<close> delimiters from left to right. The input
  \<open>a **b** c\<close> gives the runs \<open>a \<close> (plain), \<open>b\<close> (bold), \<open> c\<close> (plain); the input
  \<open>a **b\<close>, with one unpaired marker, gives the whole text as one plain run. In general:
  a paragraph whose first marker opens at the end of \<open>pre\<close> and closes at the end of
  \<open>mid\<close> gives \<open>pre\<close> plain, \<open>mid\<close> bold and then the runs of the rest; a paragraph whose
  first marker has no marker after it is one plain run, marker included; a paragraph
  with no marker is one plain run. The number of bold runs is half the number of
  markers rounded down (markers counted from left to right without overlap, as
  \<open>str.count\<close> does), so an odd marker is never emphasis; and writing each bold run back
  between two markers gives the paragraph back, so every character outside the paired
  markers is rendered. Each line of the input is a paragraph of its own.
\<close>

theorem emphasis_markup_rendering:
  "add_formatted_content [] ''a **b** c'' =
     [Paragraph [Docx_run ''a '' False, Docx_run ''b'' True, Docx_run '' c'' False]] \<and>
   add_formatted_content [] ''a **b'' = [Paragraph [Docx_run ''a **b'' False]] \<and>
   (find_sub ''**'' (pre @ ''*'') = None \<and> find_sub ''**'' (mid @ ''*'') = None \<longrightarrow>
      format_runs (pre @ ''**'' @ mid @ ''**'' @ rest) =
        Docx_run pre False # Docx_run mid True # format_runs rest) \<and>
   (find_sub ''**'' (pre @ ''*'') = None \<and> find_sub ''**'' rest = None \<longrightarrow>
      format_runs (pre @ ''**'' @ rest) = [Docx_run (pre @ ''**'' @ rest) False]) \<and>
   (find_sub ''**'' p = None \<longrightarrow> format_runs p = [Docx_run p False]) \<and>
   length (filter bold (format_runs p)) = count_markers p div 2 \<and>
   concat (map run_markup (format_runs p)) = p \<and>
   add_formatted_content doc content_text =
     doc @ map (\<lambda>paragraph. Paragraph (format_runs paragraph))
             (py_split (CHR ''\<newline>'') content_text)"
proof -
  have "add_formatted_content [] ''a **b** c'' =
     [Paragraph [Docx_run ''a '' False, Docx_run ''b'' True, Docx_run '' c'' False]]"
    by (simp add: add_formatted_content_paragraphs example_paired)
  moreover have "add_formatted_content [] ''a **b'' = [Paragraph [Docx_run ''a **b'' False]]"
    by (simp add: add_formatted_content_paragraphs example_unpaired)
  ultimately show ?thesis
    using format_runs_pair [of pre mid rest] format_runs_unpaired [of pre rest]
      format_runs_plain [of p] format_runs_bold_count [of p] format_runs_markup [of p]
      add_formatted_content_paragraphs [of doc content_text]
    by blast
qed

theorem emphasis_markup_rendering_witness:
  "find_sub ''**'' (''a '' @ ''*'') = None \<and>
   find_sub ''**'' (''b'' @ ''*'') = None \<and>
   find_sub ''**'' '' c'' = None \<and>
   format_runs (''a '' @ ''**'' @ ''b'' @ ''**'' @ '' c'') =
     Docx_run ''a '' False # Docx_run ''b'' True # format_runs '' c'' \<and>
   format_runs (''a '' @ ''**'' @ '' c'') = [Docx_run (''a '' @ ''**'' @ '' c'') False] \<and>
   format_runs '' c'' = [Docx_run '' c'' False]"
proof -
  have h1: "find_sub ''**'' (''a '' @ ''*'') = None"
    and h2: "find_sub ''**'' (''b'' @ ''*'') = None"
    and h3: "find_sub ''**'' '' c'' = None"
    by simp_all
  from h1 h2 h3
    emphasis_markup_rendering [where pre = "''a ''" and mid = "''b''" and rest = "'' c''"
      and p = "'' c''"]
  show ?thesis by blast
qed

section \<open>The responses of the request entry point\<close>

lemma main_unparseable:
  "get_json req = Inl e \<Longrightarrow>
   status_code (fst (main req)) = 500 \<and> started (snd (main req)) = None"
  by (simp add: main_def main_failed_def)

lemma main_not_object:
  "get_json req = Inr b \<Longrightarrow> \<forall>kvs. b \<noteq> JObj kvs \<Longrightarrow>
   status_code (fst (main req)) = 500 \<and> started (snd (main req)) = None"
  by (cases b) (simp_all add: main_def main_failed_def)

lemma main_object:
  "get_json req = Inr (JObj kvs) \<Longrightarrow>
   main req =
     (if \<not> truthy (dict_get kvs ''attachments_folder_id'') \<or>
         \<not> truthy (dict_get kvs ''response_folder_id'')
      then (\<lparr> body = ''Missing folder IDs in the request body.'', status_code = 400 \<rparr>,
            \<lparr> logged = [Main_info ''Python HTTP trigger function processed a request.'',
                        Main_error ''Missing folder IDs in the request body.''],
              started = None \<rparr>)
      else (\<lparr> body = ''The function is processing in the background. Check logs for details.'',
              status_code = 202 \<rparr>,
            \<lparr> logged = [Main_info ''Python HTTP trigger function processed a request.''],
              started = Some (dict_get kvs ''attachments_folder_id'',
                              dict_get kvs ''response_folder_id'') \<rparr>))"
  by (simp add: main_def)

text \<open>
  C10, as the claim states it, fails: the body \<open>[]\<close> is JSON and has no folder-id field,
  and the response is 500, not the 400 rejection.
\<close>

theorem trigger_rejection_counterexample:
  "get_json \<lparr>get_json = Inr (JArr [])\<rparr> = Inr (JArr []) \<and>
   missing_or_empty (folder_id_field (JArr []) ''attachments_folder_id'') \<and>
   status_code (fst (main \<lparr>get_json = Inr (JArr [])\<rparr>)) = 500 \<and>
   status_code (fst (main \<lparr>get_json = Inr (JArr [])\<rparr>)) \<noteq> 400"
  by (simp add: main_def main_failed_def missing_or_empty_def folder_id_field_def)

text \<open>
  C10, amended. A request whose body is not JSON gets the 500 response and starts no
  background processing. The 400 rejection is returned exactly when the body is a JSON
  object in which one of the two folder-id members is absent or has a false value
  (null, false, zero, an empty string, array or object). The 500 response is returned
  exactly when the body is not JSON or is JSON other than an object. Background
  processing is started exactly with the 202 response, and with the two members as
  its arguments.
\<close>

theorem trigger_responses:
  "(get_json req = Inl e \<longrightarrow>
      status_code (fst (main req)) = 500 \<and> started (snd (main req)) = None) \<and>
   (status_code (fst (main req)) = 400 \<longleftrightarrow>
      (\<exists>kvs. get_json req = Inr (JObj kvs) \<and>
         (\<not> truthy (dict_get kvs ''attachments_folder_id'') \<or>
          \<not> truthy (dict_get kvs ''response_folder_id'')))) \<and>
   (status_code (fst (main req)) = 500 \<longleftrightarrow>
      (\<exists>x. get_json req = Inl x) \<or> (\<exists>b. get_json req = Inr b \<and> (\<forall>kvs. b \<noteq> JObj kvs))) \<and>
   (status_code (fst (main req)) = 202 \<longleftrightarrow>
      (\<exists>kvs. get_json req = Inr (JObj kvs) \<and>
         truthy (dict_get kvs ''attachments_folder_id'') \<and>
         truthy (dict_get kvs ''response_folder_id'') \<and>
         started (snd (main req)) =
           Some (dict_get kvs ''attachments_folder_id'', dict_get kvs ''response_folder_id''))) \<and>
   (started (snd (main req)) \<noteq> None \<longleftrightarrow> status_code (fst (main req)) = 202)"
proof (cases "get_json req")
  case (Inl x)
  with main_unparseable [of req x] show ?thesis by auto
next
  case (Inr b)
  show ?thesis
  proof (cases "\<exists>kvs. b = JObj kvs")
    case True
    then obtain kvs where "b = JObj kvs" ..
    with Inr main_object [of req kvs] show ?thesis by auto
  next
    case False
    with Inr main_not_object [of req b] show ?thesis by auto
  qed
qed

theorem trigger_responses_witness:
  "get_json \<lparr>get_json = Inl (ValueError ''HTTP request does not contain valid JSON data'')\<rparr> =
     Inl (ValueError ''HTTP request does not contain valid JSON data'') \<and>
   status_code (fst (main
     \<lparr>get_json = Inl (ValueError ''HTTP request does not contain valid JSON data'')\<rparr>)) = 500 \<and>
   started (snd (main
     \<lparr>get_json = Inl (ValueError ''HTTP request does not contain valid JSON data'')\<rparr>)) = None"
proof -
  let ?req = "\<lparr>get_json = Inl (ValueError ''HTTP request does not contain valid JSON data'')\<rparr>"
  have h: "get_json ?req = Inl (ValueError ''HTTP request does not contain valid JSON data'')"
    by simp
  from h trigger_responses [of ?req "ValueError ''HTTP request does not contain valid JSON data''"]
  show ?thesis by blast
qed

section \<open>The content extractor on corrupt files\<close>

lemma ext_of:
  "py_lower (snd (splitext ''folder/scan.pdf'')) = ''.pdf''"
  "py_lower (snd (splitext ''folder/notes.DOCX'')) = ''.docx''"
  "py_lower (snd (splitext ''folder/old.doc'')) = ''.doc''"
  "py_lower (snd (splitext ''folder/slides.pptx'')) = ''.pptx''"
  "py_lower (snd (splitext ''folder/readme.txt'')) = ''.txt''"
  "py_lower (snd (splitext ''folder/sheet.xlsx'')) = ''.xlsx''"
  "py_lower (snd (splitext ''folder/archive.zip'')) = ''.zip''"
  by (simp_all add: splitext_def rfind_def py_slice_def py_lower_def char_lower_def)

lemma demo_libs_corrupt:
  "read_excel demo_libs ''corrupt'' = Inl (Exception ''xlsx: not a valid file'')"
  "docx_paragraphs demo_libs ''corrupt'' = Inl (Exception ''docx: not a valid file'')"
  "pdf_pages demo_libs ''corrupt'' = Inl (Exception ''pdf: not a valid file'')"
  "pptx_shapes demo_libs ''corrupt'' = Inl (Exception ''pptx: not a valid file'')"
  "utf8_decode demo_libs ''corrupt'' = Inl (Exception ''utf-8: not a valid file'')"
  "doc_to_docx demo_libs ''corrupt'' = Inl (Exception ''doc: not a valid file'')"
  "utf8_decode demo_libs ''hello'' = Inr ''hello''"
  by (simp_all add: demo_libs_def rejecting_def)

text \<open>
  C3 fails on the code. Only \<open>process_excel\<close> catches the parser's exception and returns
  a message; \<open>process_word\<close>, \<open>process_pdf\<close>, \<open>process_ppt\<close> and \<open>process_text\<close> do not,
  so a corrupt Word, PDF, PowerPoint or text file raises out of \<open>process_file\<close>, and
  out of the loop of \<open>download_from_adls\<close> before the remaining files are read. An
  unsupported extension is answered by a message, as the claim says.
\<close>

theorem corrupt_file_raises:
  "process_file demo_libs ''folder/scan.pdf'' ''corrupt'' =
     Inl (Exception ''pdf: not a valid file'') \<and>
   process_file demo_libs ''folder/notes.DOCX'' ''corrupt'' =
     Inl (Exception ''docx: not a valid file'') \<and>
   process_file demo_libs ''folder/slides.pptx'' ''corrupt'' =
     Inl (Exception ''pptx: not a valid file'') \<and>
   process_file demo_libs ''folder/readme.txt'' ''corrupt'' =
     Inl (Exception ''utf-8: not a valid file'') \<and>
   process_file demo_libs ''folder/sheet.xlsx'' ''corrupt'' =
     Inr ''Error processing Excel file: xlsx: not a valid file'' \<and>
   process_file demo_libs ''folder/archive.zip'' ''corrupt'' =
     Inr ''Unsupported file type: .zip'' \<and>
   download_from_adls demo_libs
     [(''folder/scan.pdf'', ''corrupt''), (''folder/readme.txt'', ''hello'')] [] =
     Inl (Exception ''pdf: not a valid file'')"
proof -
  have pdf: "process_file demo_libs ''folder/scan.pdf'' ''corrupt'' =
      Inl (Exception ''pdf: not a valid file'')"
    by (simp add: process_file_def ext_of process_pdf_def demo_libs_corrupt)
  have docx: "process_file demo_libs ''folder/notes.DOCX'' ''corrupt'' =
      Inl (Exception ''docx: not a valid file'')"
    by (simp add: process_file_def ext_of process_word_def demo_libs_corrupt)
  have pptx: "process_file demo_libs ''folder/slides.pptx'' ''corrupt'' =
      Inl (Exception ''pptx: not a valid file'')"
    by (simp add: process_file_def ext_of process_ppt_def demo_libs_corrupt)
  have text_file: "process_file demo_libs ''folder/readme.txt'' ''corrupt'' =
      Inl (Exception ''utf-8: not a valid file'')"
    by (simp add: process_file_def ext_of process_text_def demo_libs_corrupt)
  have xlsx: "process_file demo_libs ''folder/sheet.xlsx'' ''corrupt'' =
      Inr ''Error processing Excel file: xlsx: not a valid file''"
    by (simp add: process_file_def ext_of process_excel_def demo_libs_corrupt)
  have zip: "process_file demo_libs ''folder/archive.zip'' ''corrupt'' =
      Inr ''Unsupported file type: .zip''"
    by (simp add: process_file_def ext_of)
  have "download_from_adls demo_libs
      [(''folder/scan.pdf'', ''corrupt''), (''folder/readme.txt'', ''hello'')] [] =
      Inl (Exception ''pdf: not a valid file'')"
    by (simp add: pdf)
  with pdf docx pptx text_file xlsx zip show ?thesis by blast
qed

section \<open>The retry loops\<close>

lemma appended_refl: "appended s [] s"
  by (simp add: appended_def)

lemma appended_trans:
  "appended s xs s1 \<Longrightarrow> appended s1 ys s2 \<Longrightarrow> appended s (xs @ ys) s2"
  by (simp add: appended_def)

lemma appended_emit: "appended s evs (emit evs s)"
  by (simp add: appended_def emit_def)

lemma appended_remote: "remote f ev s = (r, s') \<Longrightarrow> appended s [ev] s'"
  by (auto simp: appended_def remote_def split: prod.splits)

lemma appended_new_events: "appended s evs s' \<Longrightarrow> new_events s s' = evs"
  by (simp add: appended_def new_events_def)

lemma same_documents_refl: "same_documents s s"
  by (simp add: same_documents_def)

lemma same_documents_trans:
  "same_documents s s1 \<Longrightarrow> same_documents s1 s2 \<Longrightarrow> same_documents s s2"
  by (simp add: same_documents_def)

lemma same_documents_emit: "same_documents s (emit evs s)"
  by (simp add: same_documents_def emit_def)

lemma same_documents_remote: "remote f ev s = (r, s') \<Longrightarrow> same_documents s s'"
  by (auto simp: same_documents_def remote_def split: prod.splits)

lemma actions_append: "actions (xs @ ys) = actions xs @ actions ys"
  by (simp add: actions_def)

lemma calls_append: "calls P (xs @ ys) = calls P xs + calls P ys"
  by (simp add: calls_def)

text \<open>The shape of a retry loop's actions: \<open>k\<close> failed attempts, each followed by a sleep
  of one second, then the successful attempt when there is one.\<close>

lemma submit_loop_shape:
  assumes "submit_loop c thread_id i n prompt attempt s = (ok, s')"
  shows "\<exists>evs k. appended s evs s' \<and> same_documents s s' \<and>
           actions evs =
             concat (replicate k [Messages_create thread_id prompt, Sleep 1]) @
             (if ok then [Messages_create thread_id prompt] else []) \<and>
           calls is_giving_up evs = 0 \<and>
           (ok \<longrightarrow> attempt + k < 3) \<and> (\<not> ok \<longrightarrow> attempt + k = max attempt 3)"
  using assms
proof (induction c thread_id i n prompt attempt s arbitrary: ok s' rule: submit_loop.induct)
  case (1 c thread_id i n prompt attempt s)
  let ?call = "Messages_create thread_id prompt"
  show ?case
  proof (cases "attempt < 3")
    case False
    with "1.prems" have "ok = False" and "s' = s"
      by (simp_all add: submit_loop.simps [of c thread_id i n prompt attempt s])
    with False show ?thesis
      by (intro exI [of _ "[]"] exI [of _ 0])
        (simp add: appended_refl same_documents_refl actions_def calls_def)
  next
    case True
    obtain r s1 where rem: "remote (messages_create c thread_id ''user'' prompt) ?call s = (r, s1)"
      by force
    note a1 = appended_remote [OF rem] and d1 = same_documents_remote [OF rem]
    show ?thesis
    proof (cases r)
      case (Inr msg)
      let ?evs = "[?call, Log_info (Added_prompt (i + 1) n)]"
      from True rem Inr "1.prems" have ok: "ok = True"
        and s': "s' = emit [Log_info (Added_prompt (i + 1) n)] s1"
        by (simp_all add: submit_loop.simps [of c thread_id i n prompt attempt s])
      have "appended s ?evs s'"
        using appended_trans [OF a1 appended_emit [of s1 "[Log_info (Added_prompt (i + 1) n)]"]]
        by (simp add: s')
      moreover have "same_documents s s'"
        using same_documents_trans [OF d1 same_documents_emit] by (simp add: s')
      ultimately show ?thesis
        using ok True
        by (intro exI [of _ ?evs] exI [of _ 0]) (simp add: actions_def calls_def)
    next
      case (Inl e)
      let ?fail = "[Log_error (Add_prompt_failed (i + 1) n e), Sleep 1]"
      from True rem Inl "1.prems"
      have rec: "submit_loop c thread_id i n prompt (attempt + 1) (emit ?fail s1) = (ok, s')"
        by (simp add: submit_loop.simps [of c thread_id i n prompt attempt s])
      from "1.IH" [OF True rem [symmetric] Inl rec]
      obtain evs k where a2: "appended (emit ?fail s1) evs s'"
        and d2: "same_documents (emit ?fail s1) s'"
        and act: "actions evs = concat (replicate k [?call, Sleep 1]) @ (if ok then [?call] else [])"
        and gu: "calls is_giving_up evs = 0"
        and k1: "ok \<longrightarrow> attempt + 1 + k < 3"
        and k2: "\<not> ok \<longrightarrow> attempt + 1 + k = max (attempt + 1) 3"
        by blast
      have "appended s ([?call] @ ?fail @ evs) s'"
        using appended_trans [OF a1 appended_trans [OF appended_emit a2]] .
      moreover have "same_documents s s'"
        using same_documents_trans [OF d1 same_documents_trans [OF same_documents_emit d2]] .
      moreover have "actions ([?call] @ ?fail @ evs) =
          concat (replicate (Suc k) [?call, Sleep 1]) @ (if ok then [?call] else [])"
        using act by (simp add: actions_def)
      moreover have "calls is_giving_up ([?call] @ ?fail @ evs) = 0"
        using gu by (simp add: calls_def)
      moreover have "ok \<longrightarrow> attempt + Suc k < 3" using k1 by simp
      moreover have "\<not> ok \<longrightarrow> attempt + Suc k = max attempt 3" using k2 True by simp
      ultimately show ?thesis by blast
    qed
  qed
qed

lemma run_loop_shape:
  assumes "run_loop c thread_id i n attempt s = (ro, s')"
  shows "\<exists>evs k. appended s evs s' \<and> same_documents s s' \<and>
           actions evs =
             concat (replicate k [Runs_create thread_id assistant_id, Sleep 1]) @
             (if ro \<noteq> None then [Runs_create thread_id assistant_id] else []) \<and>
           calls is_giving_up evs = 0 \<and>
           (ro \<noteq> None \<longrightarrow> attempt + k < 3) \<and> (ro = None \<longrightarrow> attempt + k = max attempt 3)"
  using assms
proof (induction c thread_id i n attempt s arbitrary: ro s' rule: run_loop.induct)
  case (1 c thread_id i n attempt s)
  let ?call = "Runs_create thread_id assistant_id"
  show ?case
  proof (cases "attempt < 3")
    case False
    with "1.prems" have "ro = None" and "s' = s"
      by (simp_all add: run_loop.simps [of c thread_id i n attempt s])
    with False show ?thesis
      by (intro exI [of _ "[]"] exI [of _ 0])
        (simp add: appended_refl same_documents_refl actions_def calls_def)
  next
    case True
    obtain r s1 where rem: "remote (runs_create c thread_id assistant_id) ?call s = (r, s1)"
      by force
    note a1 = appended_remote [OF rem] and d1 = same_documents_remote [OF rem]
    show ?thesis
    proof (cases r)
      case (Inr created)
      from True rem Inr "1.prems" have ro: "ro = Some created" and s': "s' = s1"
        by (simp_all add: run_loop.simps [of c thread_id i n attempt s])
      from a1 d1 ro s' True show ?thesis
        by (intro exI [of _ "[?call]"] exI [of _ 0]) (simp add: actions_def calls_def)
    next
      case (Inl e)
      let ?fail = "[Log_error (Run_create_failed (i + 1) n e), Sleep 1]"
      from True rem Inl "1.prems"
      have rec: "run_loop c thread_id i n (attempt + 1) (emit ?fail s1) = (ro, s')"
        by (simp add: run_loop.simps [of c thread_id i n attempt s])
      from "1.IH" [OF True rem [symmetric] Inl rec]
      obtain evs k where a2: "appended (emit ?fail s1) evs s'"
        and d2: "same_documents (emit ?fail s1) s'"
        and act: "actions evs =
            concat (replicate k [?call, Sleep 1]) @ (if ro \<noteq> None then [?call] else [])"
        and gu: "calls is_giving_up evs = 0"
        and k1: "ro \<noteq> None \<longrightarrow> attempt + 1 + k < 3"
        and k2: "ro = None \<longrightarrow> attempt + 1 + k = max (attempt + 1) 3"
        by blast
      have "appended s ([?call] @ ?fail @ evs) s'"
        using appended_trans [OF a1 appended_trans [OF appended_emit a2]] .
      moreover have "same_documents s s'"
        using same_documents_trans [OF d1 same_documents_trans [OF same_documents_emit d2]] .
      moreover have "actions ([?call] @ ?fail @ evs) =
          concat (replicate (Suc k) [?call, Sleep 1]) @ (if ro \<noteq> None then [?call] else [])"
        using act by (simp add: actions_def)
      moreover have "calls is_giving_up ([?call] @ ?fail @ evs) = 0"
        using gu by (simp add: calls_def)
      moreover have "ro \<noteq> None \<longrightarrow> attempt + Suc k < 3" using k1 by simp
      moreover have "ro = None \<longrightarrow> attempt + Suc k = max attempt 3" using k2 True by simp
      ultimately show ?thesis by blast
    qed
  qed
qed

section \<open>The poll loop and the refresh of the transcript\<close>

text \<open>When the poll loop returns, it has only slept and retrieved the run, and a run it
  returns has a status outside the three it waits on.\<close>

lemma poll_returns:
  assumes "poll c thread_id r s = Some y"
  shows "\<exists>evs. appended s evs (snd y) \<and> same_documents s (snd y) \<and>
           (\<forall>ev \<in> set evs. ev = Sleep 1 \<or> is_runs_retrieve ev) \<and>
           (\<forall>r'. fst y = Inr r' \<longrightarrow>
              status r' \<notin> set [''queued'', ''in_progress'', ''cancelling''])"
  using assms
proof (induction rule: poll.raw_induct [rotated 1, consumes 1])
  case (1 poll' c thread_id r s y)
  show ?case
  proof (cases "status r \<in> set [''queued'', ''in_progress'', ''cancelling'']")
    case False
    with "1.hyps" have "y = (Inr r, s)" by simp
    with False show ?thesis
      by (intro exI [of _ "[]"]) (simp add: appended_refl same_documents_refl)
  next
    case True
    let ?call = "Runs_retrieve thread_id (run_id r)"
    obtain res s1 where rem:
      "remote (runs_retrieve c thread_id (run_id r)) ?call (emit [Sleep 1] s) = (res, s1)"
      by force
    have a1: "appended s ([Sleep 1] @ [?call]) s1"
      using appended_trans [OF appended_emit appended_remote [OF rem]] .
    have d1: "same_documents s s1"
      using same_documents_trans [OF same_documents_emit same_documents_remote [OF rem]] .
    show ?thesis
    proof (cases res)
      case (Inl e)
      with True rem "1.hyps" have "y = (Inl e, s1)" by simp
      with a1 d1 show ?thesis
        by (intro exI [of _ "[Sleep 1] @ [?call]"]) simp
    next
      case (Inr r')
      with True rem "1.hyps" have "poll' c thread_id r' s1 = Some y" by simp
      from "1.IH" [OF this] obtain evs where a2: "appended s1 evs (snd y)"
        and d2: "same_documents s1 (snd y)"
        and only: "\<forall>ev \<in> set evs. ev = Sleep 1 \<or> is_runs_retrieve ev"
        and st: "\<forall>r'. fst y = Inr r' \<longrightarrow>
              status r' \<notin> set [''queued'', ''in_progress'', ''cancelling'']"
        by blast
      have "appended s (([Sleep 1] @ [?call]) @ evs) (snd y)"
        using appended_trans [OF a1 a2] .
      moreover have "same_documents s (snd y)"
        using same_documents_trans [OF d1 d2] .
      moreover have "\<forall>ev \<in> set (([Sleep 1] @ [?call]) @ evs). ev = Sleep 1 \<or> is_runs_retrieve ev"
        using only by simp
      ultimately show ?thesis using st by blast
    qed
  qed
qed

lemma refresh_transcript_appended:
  assumes "refresh_transcript c thread_id s = (res, s')"
  shows "appended s [Messages_list thread_id] s'"
proof -
  obtain r s1 where rem:
    "remote (messages_list c thread_id) (Messages_list thread_id) s = (r, s1)"
    by force
  from appended_remote [OF rem] have "trace s1 = trace s @ [Messages_list thread_id]"
    by (simp add: appended_def)
  with assms rem show ?thesis
    by (cases r)
      (auto simp: refresh_transcript_def appended_def Let_def split: sum.splits)
qed

section \<open>One prompt\<close>

text \<open>The six ways the body of the loop can go for one prompt.\<close>

lemma process_prompt_cases:
  obtains
    (submit_exhausted) s1 where
      "submit_loop c thread_id i n prompt 0 s = (False, s1)"
      "process_prompt c thread_id n (i, prompt) s =
         Some (Inr (), emit [Log_error (Giving_up_prompt (i + 1) n prompt)] s1)"
  | (run_exhausted) s1 s2 where
      "submit_loop c thread_id i n prompt 0 s = (True, s1)"
      "run_loop c thread_id i n 0 s1 = (None, s2)"
      "process_prompt c thread_id n (i, prompt) s =
         Some (Inr (), emit [Log_error (Giving_up_run (i + 1) n)] s2)"
  | (never_returns) s1 s2 r where
      "submit_loop c thread_id i n prompt 0 s = (True, s1)"
      "run_loop c thread_id i n 0 s1 = (Some r, s2)"
      "poll c thread_id r s2 = None"
      "process_prompt c thread_id n (i, prompt) s = None"
  | (poll_raises) s1 s2 r e s3 where
      "submit_loop c thread_id i n prompt 0 s = (True, s1)"
      "run_loop c thread_id i n 0 s1 = (Some r, s2)"
      "poll c thread_id r s2 = Some (Inl e, s3)"
      "process_prompt c thread_id n (i, prompt) s = Some (Inl e, s3)"
  | (run_failed) s1 s2 r r' s3 where
      "submit_loop c thread_id i n prompt 0 s = (True, s1)"
      "run_loop c thread_id i n 0 s1 = (Some r, s2)"
      "poll c thread_id r s2 = Some (Inr r', s3)"
      "status r' \<noteq> ''completed''"
      "process_prompt c thread_id n (i, prompt) s =
         Some (Inr (), emit [Log_error (Run_failed (i + 1) n (status r'))] s3)"
  | (completed) s1 s2 r r' s3 where
      "submit_loop c thread_id i n prompt 0 s = (True, s1)"
      "run_loop c thread_id i n 0 s1 = (Some r, s2)"
      "poll c thread_id r s2 = Some (Inr r', s3)"
      "status r' = ''completed''"
      "process_prompt c thread_id n (i, prompt) s = Some (refresh_transcript c thread_id s3)"
proof -
  obtain ok s1 where sub: "submit_loop c thread_id i n prompt 0 s = (ok, s1)"
    by force
  show thesis
  proof (cases ok)
    case False
    with sub show thesis
      by (intro submit_exhausted [of s1]) (simp_all add: process_prompt_def)
  next
    case True
    note ok = this
    obtain ro s2 where run: "run_loop c thread_id i n 0 s1 = (ro, s2)"
      by force
    show thesis
    proof (cases ro)
      case None
      with sub ok run show thesis
        by (intro run_exhausted [of s1 s2]) (simp_all add: process_prompt_def)
    next
      case (Some r)
      note ro = this
      show thesis
      proof (cases "poll c thread_id r s2")
        case None
        with sub ok run ro show thesis
          by (intro never_returns [of s1 r s2]) (simp_all add: process_prompt_def)
      next
        case (Some y)
        obtain res s3 where y: "y = (res, s3)" by force
        show thesis
        proof (cases res)
          case (Inl e)
          with sub ok run ro Some y show thesis
            by (intro poll_raises [of s1 r s2 e s3]) (simp_all add: process_prompt_def)
        next
          case (Inr r')
          show thesis
          proof (cases "status r' = ''completed''")
            case True
            with sub ok run ro Some y Inr show thesis
              by (intro completed [of s1 r s2 r' s3]) (simp_all add: process_prompt_def)
          next
            case False
            with sub ok run ro Some y Inr show thesis
              by (intro run_failed [of s1 r s2 r' s3]) (simp_all add: process_prompt_def)
          qed
        qed
      qed
    qed
  qed
qed

section \<open>Counting the remote calls\<close>

lemma filter_filter_implied:
  "(\<And>x. P x \<Longrightarrow> Q x) \<Longrightarrow> filter P (filter Q xs) = filter P xs"
  by (induction xs) auto

lemma log_is_no_call:
  "is_log ev \<Longrightarrow>
     \<not> is_messages_create ev \<and> \<not> is_runs_create ev \<and> \<not> is_runs_retrieve ev \<and>
     \<not> is_messages_list ev \<and> \<not> is_onedrive_put ev \<and> \<not> is_sleep ev"
  by (cases ev) simp_all

lemma calls_actions:
  "calls is_messages_create (actions evs) = calls is_messages_create evs"
  "calls is_runs_create (actions evs) = calls is_runs_create evs"
  "calls is_runs_retrieve (actions evs) = calls is_runs_retrieve evs"
  "calls is_messages_list (actions evs) = calls is_messages_list evs"
  "calls is_onedrive_put (actions evs) = calls is_onedrive_put evs"
  "calls is_sleep (actions evs) = calls is_sleep evs"
  unfolding calls_def actions_def
  by (rule arg_cong [where f = length], rule filter_filter_implied, use log_is_no_call in blast)+

lemma calls_replicate:
  "calls P (concat (replicate k xs)) = k * calls P xs"
  by (induction k) (simp_all add: calls_def)

lemma calls_attempts:
  "calls P (concat (replicate k [a, b]) @ (if ok then [a] else [])) =
     (if P a then k + (if ok then 1 else 0) else 0) + (if P b then k else 0)"
  unfolding calls_append calls_replicate by (simp add: calls_def)

lemma poll_event_kind:
  "ev = Sleep 1 \<or> is_runs_retrieve ev \<Longrightarrow>
     \<not> is_messages_create ev \<and> \<not> is_runs_create ev \<and> \<not> is_messages_list ev \<and>
     \<not> is_giving_up ev \<and> \<not> is_onedrive_put ev"
  by (cases ev) auto

lemma calls_none: "(\<forall>ev \<in> set evs. \<not> P ev) \<Longrightarrow> calls P evs = 0"
  by (simp add: calls_def)

lemma submit_loop_counts:
  assumes "submit_loop c thread_id i n prompt 0 s = (ok, s1)"
  shows "\<exists>evs. appended s evs s1 \<and> same_documents s s1 \<and>
           calls is_messages_create evs \<le> 3 \<and>
           calls is_runs_create evs = 0 \<and> calls is_runs_retrieve evs = 0 \<and>
           calls is_messages_list evs = 0 \<and> calls is_giving_up evs = 0"
proof -
  from submit_loop_shape [OF assms] obtain evs k where a: "appended s evs s1"
    and d: "same_documents s s1"
    and act: "actions evs =
        concat (replicate k [Messages_create thread_id prompt, Sleep 1]) @
        (if ok then [Messages_create thread_id prompt] else [])"
    and gu: "calls is_giving_up evs = 0"
    and k1: "ok \<longrightarrow> 0 + k < 3" and k2: "\<not> ok \<longrightarrow> 0 + k = max 0 3"
    by blast
  have "calls is_messages_create evs = k + (if ok then 1 else 0)"
    using calls_actions(1) [of evs] by (simp add: act calls_attempts)
  with k1 k2 have "calls is_messages_create evs \<le> 3"
    by (cases ok) simp_all
  moreover have "calls is_runs_create evs = 0"
    using calls_actions(2) [of evs] by (simp add: act calls_attempts)
  moreover have "calls is_runs_retrieve evs = 0"
    using calls_actions(3) [of evs] by (simp add: act calls_attempts)
  moreover have "calls is_messages_list evs = 0"
    using calls_actions(4) [of evs] by (simp add: act calls_attempts)
  ultimately show ?thesis using a d gu by blast
qed

lemma run_loop_counts:
  assumes "run_loop c thread_id i n 0 s = (ro, s1)"
  shows "\<exists>evs. appended s evs s1 \<and> same_documents s s1 \<and>
           calls is_messages_create evs = 0 \<and>
           calls is_runs_create evs \<le> 3 \<and> calls is_runs_retrieve evs = 0 \<and>
           calls is_messages_list evs = 0 \<and> calls is_giving_up evs = 0"
proof -
  from run_loop_shape [OF assms] obtain evs k where a: "appended s evs s1"
    and d: "same_documents s s1"
    and act: "actions evs =
        concat (replicate k [Runs_create thread_id assistant_id, Sleep 1]) @
        (if ro \<noteq> None then [Runs_create thread_id assistant_id] else [])"
    and gu: "calls is_giving_up evs = 0"
    and k1: "ro \<noteq> None \<longrightarrow> 0 + k < 3" and k2: "ro = None \<longrightarrow> 0 + k = max 0 3"
    by blast
  have "calls is_runs_create evs = k + (if ro \<noteq> None then 1 else 0)"
    using calls_actions(2) [of evs] by (simp add: act calls_attempts)
  with k1 k2 have "calls is_runs_create evs \<le> 3"
    by (cases "ro = None") simp_all
  moreover have "calls is_messages_create evs = 0"
    using calls_actions(1) [of evs] by (simp add: act calls_attempts)
  moreover have "calls is_runs_retrieve evs = 0"
    using calls_actions(3) [of evs] by (simp add: act calls_attempts)
  moreover have "calls is_messages_list evs = 0"
    using calls_actions(4) [of evs] by (simp add: act calls_attempts)
  ultimately show ?thesis using a d gu by blast
qed

lemma poll_counts:
  assumes "poll c thread_id r s = Some (res, s1)"
  shows "\<exists>evs. appended s evs s1 \<and> same_documents s s1 \<and>
           calls is_messages_create evs = 0 \<and> calls is_runs_create evs = 0 \<and>
           calls is_messages_list evs = 0 \<and> calls is_giving_up evs = 0"
proof -
  from poll_returns [OF assms] obtain evs where a: "appended s evs s1"
    and d: "same_documents s s1"
    and only: "\<forall>ev \<in> set evs. ev = Sleep 1 \<or> is_runs_retrieve ev"
    by auto
  have "\<forall>ev \<in> set evs. \<not> is_messages_create ev" "\<forall>ev \<in> set evs. \<not> is_runs_create ev"
    "\<forall>ev \<in> set evs. \<not> is_messages_list ev" "\<forall>ev \<in> set evs. \<not> is_giving_up ev"
    using only poll_event_kind by blast+
  then show ?thesis using a d by (blast intro: calls_none)
qed

text \<open>Whatever the services answer, one prompt costs at most three submissions and at
  most three run creations, and is given up at most once.\<close>

lemma process_prompt_counts:
  assumes "process_prompt c thread_id n (i, prompt) s = Some (res, s')"
  shows "\<exists>evs. appended s evs s' \<and>
           calls is_messages_create evs \<le> 3 \<and> calls is_runs_create evs \<le> 3 \<and>
           calls is_giving_up evs \<le> 1 \<and> calls is_messages_list evs \<le> 1"
proof (cases rule: process_prompt_cases [of c thread_id i n prompt s])
  case (submit_exhausted s1)
  from submit_loop_counts [OF submit_exhausted(1)] obtain evs where
    "appended s evs s1" "calls is_messages_create evs \<le> 3" "calls is_runs_create evs = 0"
    "calls is_messages_list evs = 0" "calls is_giving_up evs = 0"
    by blast
  moreover from assms submit_exhausted(2)
  have "s' = emit [Log_error (Giving_up_prompt (i + 1) n prompt)] s1" by simp
  ultimately show ?thesis
    using appended_trans [OF _ appended_emit, of s evs s1]
    by (intro exI [of _ "evs @ [Log_error (Giving_up_prompt (i + 1) n prompt)]"])
      (simp add: calls_append, simp add: calls_def)
next
  case (run_exhausted s1 s2)
  from submit_loop_counts [OF run_exhausted(1)] obtain evs1 where
    "appended s evs1 s1" "calls is_messages_create evs1 \<le> 3" "calls is_runs_create evs1 = 0"
    "calls is_messages_list evs1 = 0" "calls is_giving_up evs1 = 0"
    by blast
  moreover from run_loop_counts [OF run_exhausted(2)] obtain evs2 where
    "appended s1 evs2 s2" "calls is_messages_create evs2 = 0" "calls is_runs_create evs2 \<le> 3"
    "calls is_messages_list evs2 = 0" "calls is_giving_up evs2 = 0"
    by blast
  moreover from assms run_exhausted(3)
  have "s' = emit [Log_error (Giving_up_run (i + 1) n)] s2" by simp
  ultimately show ?thesis
    using appended_trans [OF appended_trans [of s evs1 s1 evs2 s2] appended_emit]
    by (intro exI [of _ "(evs1 @ evs2) @ [Log_error (Giving_up_run (i + 1) n)]"])
      (simp add: calls_append, simp add: calls_def)
next
  case (never_returns s1 s2 r)
  with assms show ?thesis by simp
next
  case (poll_raises s1 s2 r e s3)
  from submit_loop_counts [OF poll_raises(1)] obtain evs1 where
    "appended s evs1 s1" "calls is_messages_create evs1 \<le> 3" "calls is_runs_create evs1 = 0"
    "calls is_messages_list evs1 = 0" "calls is_giving_up evs1 = 0"
    by blast
  moreover from run_loop_counts [OF poll_raises(2)] obtain evs2 where
    "appended s1 evs2 s2" "calls is_messages_create evs2 = 0" "calls is_runs_create evs2 \<le> 3"
    "calls is_messages_list evs2 = 0" "calls is_giving_up evs2 = 0"
    by blast
  moreover from poll_counts [OF poll_raises(3)] obtain evs3 where
    "appended s2 evs3 s3" "calls is_messages_create evs3 = 0" "calls is_runs_create evs3 = 0"
    "calls is_messages_list evs3 = 0" "calls is_giving_up evs3 = 0"
    by blast
  moreover from assms poll_raises(4) have "s' = s3" by simp
  ultimately show ?thesis
    using appended_trans [OF appended_trans [of s evs1 s1 evs2 s2], of evs3 s3]
    by (intro exI [of _ "(evs1 @ evs2) @ evs3"]) (simp add: calls_append)
next
  case (run_failed s1 s2 r r' s3)
  from submit_loop_counts [OF run_failed(1)] obtain evs1 where
    "appended s evs1 s1" "calls is_messages_create evs1 \<le> 3" "calls is_runs_create evs1 = 0"
    "calls is_messages_list evs1 = 0" "calls is_giving_up evs1 = 0"
    by blast
  moreover from run_loop_counts [OF run_failed(2)] obtain evs2 where
    "appended s1 evs2 s2" "calls is_messages_create evs2 = 0" "calls is_runs_create evs2 \<le> 3"
    "calls is_messages_list evs2 = 0" "calls is_giving_up evs2 = 0"
    by blast
  moreover from poll_counts [OF run_failed(3)] obtain evs3 where
    "appended s2 evs3 s3" "calls is_messages_create evs3 = 0" "calls is_runs_create evs3 = 0"
    "calls is_messages_list evs3 = 0" "calls is_giving_up evs3 = 0"
    by blast
  moreover from assms run_failed(5)
  have "s' = emit [Log_error (Run_failed (i + 1) n (status r'))] s3" by simp
  ultimately show ?thesis
    using appended_trans [OF appended_trans [OF appended_trans [of s evs1 s1 evs2 s2], of evs3 s3]
        appended_emit]
    by (intro exI [of _ "((evs1 @ evs2) @ evs3) @ [Log_error (Run_failed (i + 1) n (status r'))]"])
      (simp add: calls_append, simp add: calls_def)
next
  case (completed s1 s2 r r' s3)
  from submit_loop_counts [OF completed(1)] obtain evs1 where
    "appended s evs1 s1" "calls is_messages_create evs1 \<le> 3" "calls is_runs_create evs1 = 0"
    "calls is_messages_list evs1 = 0" "calls is_giving_up evs1 = 0"
    by blast
  moreover from run_loop_counts [OF completed(2)] obtain evs2 where
    "appended s1 evs2 s2" "calls is_messages_create evs2 = 0" "calls is_runs_create evs2 \<le> 3"
    "calls is_messages_list evs2 = 0" "calls is_giving_up evs2 = 0"
    by blast
  moreover from poll_counts [OF completed(3)] obtain evs3 where
    "appended s2 evs3 s3" "calls is_messages_create evs3 = 0" "calls is_runs_create evs3 = 0"
    "calls is_messages_list evs3 = 0" "calls is_giving_up evs3 = 0"
    by blast
  moreover from assms completed(5) have "refresh_transcript c thread_id s3 = (res, s')"
    by simp
  from refresh_transcript_appended [OF this] have "appended s3 [Messages_list thread_id] s'" .
  ultimately show ?thesis
    using appended_trans [OF appended_trans [OF appended_trans [of s evs1 s1 evs2 s2], of evs3 s3],
        of "[Messages_list thread_id]" s']
    by (intro exI [of _ "((evs1 @ evs2) @ evs3) @ [Messages_list thread_id]"])
      (simp add: calls_append, simp add: calls_def)
qed

section \<open>The loop over the prompts\<close>

lemma run_prompts_counts:
  assumes "run_prompts c thread_id n ips s = Some (res, s')"
  shows "\<exists>evs. appended s evs s' \<and>
           calls is_messages_create evs \<le> 3 * length ips \<and>
           calls is_runs_create evs \<le> 3 * length ips \<and>
           calls is_giving_up evs \<le> length ips \<and>
           calls is_messages_list evs \<le> length ips"
  using assms
proof (induction ips arbitrary: s)
  case Nil
  then have "s' = s" by simp
  then show ?case
    by (intro exI [of _ "[]"]) (simp add: appended_refl calls_def)
next
  case (Cons ip rest)
  obtain i prompt where ip: "ip = (i, prompt)" by force
  show ?case
  proof (cases "process_prompt c thread_id n (i, prompt) s")
    case None
    with Cons.prems ip show ?thesis by simp
  next
    case (Some y)
    obtain r s1 where y: "y = (r, s1)" by force
    from process_prompt_counts [of c thread_id n i prompt s r s1] Some y
    obtain evs1 where a1: "appended s evs1 s1"
      and c1: "calls is_messages_create evs1 \<le> 3" "calls is_runs_create evs1 \<le> 3"
        "calls is_giving_up evs1 \<le> 1" "calls is_messages_list evs1 \<le> 1"
      by blast
    show ?thesis
    proof (cases r)
      case (Inl e)
      with Cons.prems ip Some y have "s' = s1" by simp
      with a1 c1 show ?thesis
        by (intro exI [of _ evs1]) simp
    next
      case (Inr u)
      with Cons.prems ip Some y have "run_prompts c thread_id n rest s1 = Some (res, s')"
        by simp
      from Cons.IH [OF this] obtain evs2 where a2: "appended s1 evs2 s'"
        and c2: "calls is_messages_create evs2 \<le> 3 * length rest"
          "calls is_runs_create evs2 \<le> 3 * length rest"
          "calls is_giving_up evs2 \<le> length rest"
          "calls is_messages_list evs2 \<le> length rest"
        by blast
      from appended_trans [OF a1 a2] c1 c2 show ?thesis
        by (intro exI [of _ "evs1 @ evs2"]) (simp add: calls_append)
    qed
  qed
qed

lemma run_prompts_single:
  "run_prompts c thread_id n [ip] s = process_prompt c thread_id n ip s"
proof (cases "process_prompt c thread_id n ip s")
  case None
  then show ?thesis by simp
next
  case (Some y)
  obtain r s' where y: "y = (r, s')" by force
  with Some show ?thesis by (cases r) simp_all
qed

text \<open>When the body ends normally for a prompt, the loop goes on: alone the prompt ends the
  loop normally, and followed by another prompt the loop does for that one what the body
  does, from the state the first prompt left.\<close>

lemma run_prompts_step:
  assumes "process_prompt c thread_id n ip s = Some (Inr (), s')"
  shows "run_prompts c thread_id n (ip # rest) s = run_prompts c thread_id n rest s'"
    and "run_prompts c thread_id n [ip] s = Some (Inr (), s')"
    and "run_prompts c thread_id n [ip, nxt] s = process_prompt c thread_id n nxt s'"
  using assms run_prompts_single [of c thread_id n nxt s'] by simp_all

lemma submit_loop_first:
  assumes "submit_loop c thread_id i n prompt 0 s = (ok, s1)"
  shows "\<exists>evs. appended s (Messages_create thread_id prompt # evs) s1"
proof -
  let ?call = "Messages_create thread_id prompt"
  obtain r s0 where rem: "remote (messages_create c thread_id ''user'' prompt) ?call s = (r, s0)"
    by force
  note a0 = appended_remote [OF rem]
  show ?thesis
  proof (cases r)
    case (Inr msg)
    with rem assms have "s1 = emit [Log_info (Added_prompt (i + 1) n)] s0"
      by (simp add: submit_loop.simps [of c thread_id i n prompt 0 s])
    with appended_trans [OF a0 appended_emit [of s0 "[Log_info (Added_prompt (i + 1) n)]"]]
    show ?thesis by auto
  next
    case (Inl e)
    let ?fail = "[Log_error (Add_prompt_failed (i + 1) n e), Sleep 1]"
    from rem Inl assms
    have "submit_loop c thread_id i n prompt (0 + 1) (emit ?fail s0) = (ok, s1)"
      by (simp add: submit_loop.simps [of c thread_id i n prompt 0 s])
    from submit_loop_shape [OF this] obtain evs where "appended (emit ?fail s0) evs s1"
      by blast
    with appended_trans [OF a0 appended_trans [OF appended_emit [of s0 ?fail]], of evs s1]
    show ?thesis by auto
  qed
qed

lemma appended_after:
  "appended s (ev # evs) s1 \<Longrightarrow> appended s1 evs' s2 \<Longrightarrow> \<exists>zs. appended s (ev # zs) s2"
  by (auto simp: appended_def)

text \<open>The body of a prompt begins with the submission of that prompt.\<close>

lemma process_prompt_first:
  assumes "process_prompt c thread_id n (i, prompt) s = Some (res, s')"
  shows "\<exists>evs. appended s (Messages_create thread_id prompt # evs) s'"
proof (cases rule: process_prompt_cases [of c thread_id i n prompt s])
  case (submit_exhausted s1)
  from submit_loop_first [OF submit_exhausted(1)] obtain evs1 where
    a1: "appended s (Messages_create thread_id prompt # evs1) s1" by blast
  from assms submit_exhausted(2)
  have "s' = emit [Log_error (Giving_up_prompt (i + 1) n prompt)] s1" by simp
  with appended_after [OF a1 appended_emit] show ?thesis by simp
next
  case (run_exhausted s1 s2)
  from submit_loop_first [OF run_exhausted(1)] obtain evs1 where
    a1: "appended s (Messages_create thread_id prompt # evs1) s1" by blast
  from run_loop_shape [OF run_exhausted(2)] obtain evs2 where a2: "appended s1 evs2 s2"
    by blast
  from appended_after [OF a1 a2] obtain zs where
    a12: "appended s (Messages_create thread_id prompt # zs) s2" by blast
  from assms run_exhausted(3)
  have "s' = emit [Log_error (Giving_up_run (i + 1) n)] s2" by simp
  with appended_after [OF a12 appended_emit] show ?thesis by simp
next
  case (never_returns s1 s2 r)
  with assms show ?thesis by simp
next
  case (poll_raises s1 s2 r e s3)
  from submit_loop_first [OF poll_raises(1)] obtain evs1 where
    a1: "appended s (Messages_create thread_id prompt # evs1) s1" by blast
  from run_loop_shape [OF poll_raises(2)] obtain evs2 where a2: "appended s1 evs2 s2"
    by blast
  from poll_counts [OF poll_raises(3)] obtain evs3 where a3: "appended s2 evs3 s3"
    by blast
  from appended_after [OF a1 a2] obtain zs where
    a12: "appended s (Messages_create thread_id prompt # zs) s2" by blast
  from assms poll_raises(4) have "s' = s3" by simp
  with appended_after [OF a12 a3] show ?thesis by simp
next
  case (run_failed s1 s2 r r' s3)
  from submit_loop_first [OF run_failed(1)] obtain evs1 where
    a1: "appended s (Messages_create thread_id prompt # evs1) s1" by blast
  from run_loop_shape [OF run_failed(2)] obtain evs2 where a2: "appended s1 evs2 s2"
    by blast
  from poll_counts [OF run_failed(3)] obtain evs3 where a3: "appended s2 evs3 s3"
    by blast
  from appended_after [OF a1 a2] obtain zs where
    a12: "appended s (Messages_create thread_id prompt # zs) s2" by blast
  from appended_after [OF a12 a3] obtain zs' where
    a123: "appended s (Messages_create thread_id prompt # zs') s3" by blast
  from assms run_failed(5)
  have "s' = emit [Log_error (Run_failed (i + 1) n (status r'))] s3" by simp
  with appended_after [OF a123 appended_emit] show ?thesis by simp
next
  case (completed s1 s2 r r' s3)
  from submit_loop_first [OF completed(1)] obtain evs1 where
    a1: "appended s (Messages_create thread_id prompt # evs1) s1" by blast
  from run_loop_shape [OF completed(2)] obtain evs2 where a2: "appended s1 evs2 s2"
    by blast
  from poll_counts [OF completed(3)] obtain evs3 where a3: "appended s2 evs3 s3"
    by blast
  from appended_after [OF a1 a2] obtain zs where
    a12: "appended s (Messages_create thread_id prompt # zs) s2" by blast
  from appended_after [OF a12 a3] obtain zs' where
    a123: "appended s (Messages_create thread_id prompt # zs') s3" by blast
  from assms completed(5) have "refresh_transcript c thread_id s3 = (res, s')" by simp
  from appended_after [OF a123 refresh_transcript_appended [OF this]] show ?thesis .
qed

lemma process_prompt_begins:
  assumes "process_prompt c thread_id n (i, prompt) s = Some (res, s')"
  shows "hd (new_events s s') = Messages_create thread_id prompt"
  using process_prompt_first [OF assms] appended_new_events by fastforce

section \<open>When every submission fails\<close>

lemma remote_result: "remote f ev s = (r, s') \<Longrightarrow> r = fst (f (world s))"
  by (auto simp: remote_def split: prod.splits)

lemma submit_loop_all_fail:
  assumes "\<forall>t r p w. isl (fst (messages_create c t r p w))"
  shows "fst (submit_loop c thread_id i n prompt attempt s) = False"
  using assms
proof (induction c thread_id i n prompt attempt s rule: submit_loop.induct)
  case (1 c thread_id i n prompt attempt s)
  show ?case
  proof (cases "attempt < 3")
    case False
    then show ?thesis
      by (simp add: submit_loop.simps [of c thread_id i n prompt attempt s])
  next
    case True
    obtain r s1 where rem:
      "remote (messages_create c thread_id ''user'' prompt) (Messages_create thread_id prompt) s =
         (r, s1)"
      by force
    from remote_result [OF rem] "1.prems" have "isl r" by simp
    then obtain e where e: "r = Inl e" by (cases r) simp_all
    from "1.IH" [OF True rem [symmetric] e "1.prems"] True rem e show ?thesis
      by (simp add: submit_loop.simps [of c thread_id i n prompt attempt s])
  qed
qed

lemma process_prompt_all_fail:
  assumes "\<forall>t r p w. isl (fst (messages_create c t r p w))"
  shows "\<exists>s1 evs. process_prompt c thread_id n (i, prompt) s = Some (Inr (), s1) \<and>
           appended s evs s1 \<and> same_documents s s1 \<and>
           actions evs = concat (replicate 3 [Messages_create thread_id prompt, Sleep 1]) \<and>
           calls is_giving_up evs = 1"
proof -
  obtain ok s1 where sub: "submit_loop c thread_id i n prompt 0 s = (ok, s1)"
    by force
  with submit_loop_all_fail [OF assms, of thread_id i n prompt 0 s] have ok: "ok = False"
    by simp
  from submit_loop_shape [OF sub] ok obtain evs where a: "appended s evs s1"
    and d: "same_documents s s1"
    and act: "actions evs = concat (replicate 3 [Messages_create thread_id prompt, Sleep 1])"
    and gu: "calls is_giving_up evs = 0"
    by auto
  let ?log = "[Log_error (Giving_up_prompt (i + 1) n prompt)]"
  from sub ok have "process_prompt c thread_id n (i, prompt) s = Some (Inr (), emit ?log s1)"
    by (simp add: process_prompt_def)
  moreover have "appended s (evs @ ?log) (emit ?log s1)"
    using appended_trans [OF a appended_emit] .
  moreover have "same_documents s (emit ?log s1)"
    using same_documents_trans [OF d same_documents_emit] .
  moreover have "actions (evs @ ?log) =
      concat (replicate 3 [Messages_create thread_id prompt, Sleep 1])"
    using act by (simp add: actions_def)
  moreover have "calls is_giving_up (evs @ ?log) = 1"
    using gu by (simp add: calls_def)
  ultimately show ?thesis by blast
qed

lemma run_prompts_all_fail:
  assumes "\<forall>t r p w. isl (fst (messages_create c t r p w))"
  shows "\<exists>s' evs. run_prompts c thread_id n ips s = Some (Inr (), s') \<and>
           appended s evs s' \<and> same_documents s s' \<and>
           actions evs =
             concat (map (\<lambda>ip. concat (replicate 3 [Messages_create thread_id (snd ip), Sleep 1]))
               ips) \<and>
           calls is_giving_up evs = length ips"
proof (induction ips arbitrary: s)
  case Nil
  show ?case
    by (intro exI [of _ s] exI [of _ "[]"])
      (simp add: appended_refl same_documents_refl actions_def calls_def)
next
  case (Cons ip rest)
  obtain i prompt where ip: "ip = (i, prompt)" by force
  from process_prompt_all_fail [OF assms, of thread_id n i prompt s]
  obtain s1 evs1 where p1: "process_prompt c thread_id n (i, prompt) s = Some (Inr (), s1)"
    and a1: "appended s evs1 s1" and d1: "same_documents s s1"
    and act1: "actions evs1 = concat (replicate 3 [Messages_create thread_id prompt, Sleep 1])"
    and gu1: "calls is_giving_up evs1 = 1"
    by blast
  from Cons.IH [of s1]
  obtain s' evs2 where p2: "run_prompts c thread_id n rest s1 = Some (Inr (), s')"
    and a2: "appended s1 evs2 s'" and d2: "same_documents s1 s'"
    and act2: "actions evs2 =
      concat (map (\<lambda>ip. concat (replicate 3 [Messages_create thread_id (snd ip), Sleep 1])) rest)"
    and gu2: "calls is_giving_up evs2 = length rest"
    by blast
  have "run_prompts c thread_id n (ip # rest) s = Some (Inr (), s')"
    using p1 p2 ip by simp
  moreover have "appended s (evs1 @ evs2) s'"
    using appended_trans [OF a1 a2] .
  moreover have "same_documents s s'"
    using same_documents_trans [OF d1 d2] .
  moreover have "actions (evs1 @ evs2) =
      concat (map (\<lambda>ip. concat (replicate 3 [Messages_create thread_id (snd ip), Sleep 1]))
        (ip # rest))"
    using act1 act2 ip by (simp add: actions_append)
  moreover have "calls is_giving_up (evs1 @ evs2) = length (ip # rest)"
    using gu1 gu2 by (simp add: calls_append)
  ultimately show ?case by blast
qed

lemma calls_Nil: "calls P [] = 0"
  by (simp add: calls_def)

lemma calls_Cons: "calls P (x # xs) = (if P x then 1 else 0) + calls P xs"
  by (simp add: calls_def)

lemma all_fail_calls:
  fixes thread_id :: string and ips :: "(nat \<times> string) list"
  defines "acts \<equiv>
    concat (map (\<lambda>ip. concat (replicate 3 [Messages_create thread_id (snd ip), Sleep 1])) ips)"
  shows "calls is_messages_create acts = 3 * length ips"
    and "calls is_sleep acts = 3 * length ips"
    and "calls is_runs_create acts = 0"
    and "calls is_runs_retrieve acts = 0"
    and "calls is_messages_list acts = 0"
  unfolding acts_def
  by (induction ips) (simp_all add: calls_append calls_replicate calls_Nil calls_Cons)

section \<open>Runs against the scripted service\<close>

lemma mock_always_fails:
  "\<forall>t r p w. isl (fst (messages_create (mock False run_ok final_status) t r p w))"
  "\<forall>t a w. isl (fst (runs_create (mock submit_ok False final_status) t a w))"
  by (simp_all add: mock_def)

lemma mock_submit_ok:
  "submit_loop (mock True run_ok final_status) thread_id i n prompt 0 s =
     (True,
      s\<lparr>world := (world s)
           \<lparr>clock := clock (world s) + 1,
            thread := thread (world s) @
              [\<lparr>role = ''user'', created_at = clock (world s), content = [Text_block prompt]\<rparr>]\<rparr>,
        trace := trace s @ [Messages_create thread_id prompt, Log_info (Added_prompt (i + 1) n)]\<rparr>)"
  by (simp add: submit_loop.simps remote_def emit_def mock_def)

lemma mock_submit_fails:
  "submit_loop (mock False run_ok final_status) thread_id i n prompt 0 s =
     (False,
      s\<lparr>trace := trace s @
          [Messages_create thread_id prompt,
           Log_error (Add_prompt_failed (i + 1) n (Exception ''connection error'')), Sleep 1,
           Messages_create thread_id prompt,
           Log_error (Add_prompt_failed (i + 1) n (Exception ''connection error'')), Sleep 1,
           Messages_create thread_id prompt,
           Log_error (Add_prompt_failed (i + 1) n (Exception ''connection error'')), Sleep 1]\<rparr>)"
  by (simp add: submit_loop.simps remote_def emit_def mock_def)

lemma mock_run_ok:
  "run_loop (mock submit_ok True final_status) thread_id i n 0 s =
     (Some \<lparr>run_id = ''run_1'', status = ''queued''\<rparr>,
      s\<lparr>trace := trace s @ [Runs_create thread_id assistant_id]\<rparr>)"
  by (simp add: run_loop.simps remote_def emit_def mock_def)

lemma mock_run_fails:
  "run_loop (mock submit_ok False final_status) thread_id i n 0 s =
     (None,
      s\<lparr>trace := trace s @
          [Runs_create thread_id assistant_id,
           Log_error (Run_create_failed (i + 1) n (Exception ''rate limit'')), Sleep 1,
           Runs_create thread_id assistant_id,
           Log_error (Run_create_failed (i + 1) n (Exception ''rate limit'')), Sleep 1,
           Runs_create thread_id assistant_id,
           Log_error (Run_create_failed (i + 1) n (Exception ''rate limit'')), Sleep 1]\<rparr>)"
  by (simp add: run_loop.simps remote_def emit_def mock_def)

lemma mock_poll_failed:
  "poll (mock submit_ok run_ok ''failed'') thread_id \<lparr>run_id = ''run_1'', status = ''queued''\<rparr> s =
     Some (Inr \<lparr>run_id = ''run_1'', status = ''failed''\<rparr>,
           s\<lparr>trace := trace s @ [Sleep 1, Runs_retrieve thread_id ''run_1'']\<rparr>)"
  by (simp add: poll.simps remote_def emit_def mock_def)

lemma mock_poll_completed:
  "poll (mock submit_ok run_ok ''completed'') thread_id \<lparr>run_id = ''run_1'', status = ''queued''\<rparr> s =
     Some (Inr \<lparr>run_id = ''run_1'', status = ''completed''\<rparr>,
           s\<lparr>world := (world s)
                \<lparr>clock := clock (world s) + 1,
                 thread := thread (world s) @
                   [\<lparr>role = ''assistant'', created_at = clock (world s),
                     content = [Text_block ''**Proposal** text'']\<rparr>]\<rparr>,
             trace := trace s @ [Sleep 1, Runs_retrieve thread_id ''run_1'']\<rparr>)"
  by (simp add: poll.simps remote_def emit_def mock_def)

lemma mock_other_calls:
  "threads_create (mock submit_ok run_ok final_status) w = (Inr ''thread_1'', w)"
  "messages_list (mock submit_ok run_ok final_status) thread_id w = (Inr (rev (thread w)), w)"
  "onedrive_put (mock submit_ok run_ok final_status) file_name doc w = (Inr (201, Inr ''{}''), w)"
  by (simp_all add: mock_def)

lemma no_files_prompts:
  "build_prompts (make_chunks []) =
     [rfp_analysis_prompt, customer_problem_prompt, full_draft_prompt, final_proposal_prompt]"
  by (simp add: build_prompts_def make_chunks_def)

lemma enumerate_four:
  "enumerate 0 [a, b, c, d] = [(0, a), (1, b), (2, c), (3, d)]"
  by (simp add: numeral_2_eq_2 numeral_3_eq_3)

lemma failed_run_states:
  "submit_loop (mock True True ''failed'') ''thread_1'' 0 1 ''hello'' 0 start_state =
     (True, after_submit)"
  "run_loop (mock True True ''failed'') ''thread_1'' 0 1 0 after_submit =
     (Some \<lparr>run_id = ''run_1'', status = ''queued''\<rparr>, after_run)"
  "poll (mock True True ''failed'') ''thread_1'' \<lparr>run_id = ''run_1'', status = ''queued''\<rparr> after_run =
     Some (Inr \<lparr>run_id = ''run_1'', status = ''failed''\<rparr>, after_poll)"
  by (simp_all add: mock_submit_ok mock_run_ok mock_poll_failed after_submit_def after_run_def
      after_poll_def start_state_def mock_start_def)

section \<open>A run that ends without completing\<close>

lemma process_prompt_run_failed:
  assumes "submit_loop c thread_id i n prompt 0 s = (True, s1)"
    and "run_loop c thread_id i n 0 s1 = (Some r, s2)"
    and "poll c thread_id r s2 = Some (Inr r', s3)"
    and "status r' \<noteq> ''completed''"
  shows "process_prompt c thread_id n (i, prompt) s =
           Some (Inr (), emit [Log_error (Run_failed (i + 1) n (status r'))] s3)"
  using assms by (simp add: process_prompt_def)

lemma run_failed_frame:
  assumes "submit_loop c thread_id i n prompt 0 s = (True, s1)"
    and "run_loop c thread_id i n 0 s1 = (Some r, s2)"
    and "poll c thread_id r s2 = Some (Inr r', s3)"
  shows "\<exists>evs. appended s evs s3 \<and> same_documents s s3 \<and> calls is_messages_list evs = 0 \<and>
           status r' \<notin> set [''queued'', ''in_progress'', ''cancelling'']"
proof -
  from submit_loop_counts [OF assms(1)] obtain evs1 where
    "appended s evs1 s1" "same_documents s s1" "calls is_messages_list evs1 = 0"
    by blast
  moreover from run_loop_counts [OF assms(2)] obtain evs2 where
    "appended s1 evs2 s2" "same_documents s1 s2" "calls is_messages_list evs2 = 0"
    by blast
  moreover from poll_counts [OF assms(3)] obtain evs3 where
    "appended s2 evs3 s3" "same_documents s2 s3" "calls is_messages_list evs3 = 0"
    by blast
  moreover from poll_returns [OF assms(3)]
  have "status r' \<notin> set [''queued'', ''in_progress'', ''cancelling'']"
    by auto
  ultimately show ?thesis
    using appended_trans [OF appended_trans [of s evs1 s1 evs2 s2], of evs3 s3]
      same_documents_trans [OF same_documents_trans [of s s1 s2], of s3]
    by (intro exI [of _ "(evs1 @ evs2) @ evs3"]) (simp add: calls_append)
qed

text \<open>
  C4, as the claim states it, fails: for a run that ends with status \<open>failed\<close> the
  orchestrator logs the failure and goes on, but it does not fetch the message list;
  the trace of the prompt has no \<open>Messages_list\<close> call and \<open>sorted_messages\<close> is as before
  (here still unbound).
\<close>

theorem refresh_after_failed_run_counterexample:
  "map_option fst
     (process_prompt (mock True True ''failed'') ''thread_1'' 1 (0, ''hello'') start_state) =
     Some (Inr ()) \<and>
   map_option (\<lambda>y. trace (snd y))
     (process_prompt (mock True True ''failed'') ''thread_1'' 1 (0, ''hello'') start_state) =
     Some [Messages_create ''thread_1'' ''hello'', Log_info (Added_prompt 1 1),
           Runs_create ''thread_1'' assistant_id, Sleep 1, Runs_retrieve ''thread_1'' ''run_1'',
           Log_error (Run_failed 1 1 ''failed'')] \<and>
   map_option (\<lambda>y. calls is_messages_list (trace (snd y)))
     (process_prompt (mock True True ''failed'') ''thread_1'' 1 (0, ''hello'') start_state) =
     Some 0 \<and>
   map_option (\<lambda>y. sorted_messages (snd y))
     (process_prompt (mock True True ''failed'') ''thread_1'' 1 (0, ''hello'') start_state) =
     Some None"
  by (simp add: process_prompt_def mock_submit_ok mock_run_ok mock_poll_failed emit_def
      start_state_def calls_def)

text \<open>
  C4, amended. Whenever the run of a prompt reaches a terminal status other than
  \<open>completed\<close>, the orchestrator logs the failure and goes on with the next prompt; it
  does not fetch the message list for that prompt, and the running transcript
  (\<open>sorted_messages\<close> and the transcript document) stays as it was before the prompt.
  Going on with the next prompt is a fact of the loop: when the prompt is the last one
  the loop ends normally in the state the log line leaves; when another prompt follows,
  the loop does for it what the body of the loop does from that state, its result is
  the loop's result, and its first event is the submission of that next prompt.
\<close>

theorem failed_run_skips_refresh:
  assumes "submit_loop c thread_id i n prompt 0 s = (True, s1)"
    and "run_loop c thread_id i n 0 s1 = (Some r, s2)"
    and "poll c thread_id r s2 = Some (Inr r', s3)"
    and "status r' \<noteq> ''completed''"
  shows "status r' \<notin> set [''queued'', ''in_progress'', ''cancelling''] \<and>
    process_prompt c thread_id n (i, prompt) s =
      Some (Inr (), emit [Log_error (Run_failed (i + 1) n (status r'))] s3) \<and>
    run_prompts c thread_id n ((i, prompt) # rest) s =
      run_prompts c thread_id n rest (emit [Log_error (Run_failed (i + 1) n (status r'))] s3) \<and>
    calls is_messages_list
      (new_events s (emit [Log_error (Run_failed (i + 1) n (status r'))] s3)) = 0 \<and>
    sorted_messages (emit [Log_error (Run_failed (i + 1) n (status r'))] s3) = sorted_messages s \<and>
    chat_doc (emit [Log_error (Run_failed (i + 1) n (status r'))] s3) = chat_doc s \<and>
    run_prompts c thread_id n [(i, prompt)] s =
      Some (Inr (), emit [Log_error (Run_failed (i + 1) n (status r'))] s3) \<and>
    run_prompts c thread_id n [(i, prompt), (j, q)] s =
      process_prompt c thread_id n (j, q)
        (emit [Log_error (Run_failed (i + 1) n (status r'))] s3) \<and>
    (process_prompt c thread_id n (j, q)
        (emit [Log_error (Run_failed (i + 1) n (status r'))] s3) = Some (res, s4) \<longrightarrow>
       run_prompts c thread_id n [(i, prompt), (j, q)] s = Some (res, s4) \<and>
       hd (new_events (emit [Log_error (Run_failed (i + 1) n (status r'))] s3) s4) =
         Messages_create thread_id q)"
proof -
  let ?log = "[Log_error (Run_failed (i + 1) n (status r'))]"
  note step = process_prompt_run_failed [OF assms]
  note loop = run_prompts_step [OF step]
  from run_failed_frame [OF assms(1-3)] obtain evs where a: "appended s evs s3"
    and d: "same_documents s s3" and none: "calls is_messages_list evs = 0"
    and terminal: "status r' \<notin> set [''queued'', ''in_progress'', ''cancelling'']"
    by blast
  have "appended s (evs @ ?log) (emit ?log s3)"
    using appended_trans [OF a appended_emit] .
  then have "new_events s (emit ?log s3) = evs @ ?log"
    by (rule appended_new_events)
  with none have "calls is_messages_list (new_events s (emit ?log s3)) = 0"
    by (simp add: calls_append calls_Cons calls_Nil)
  moreover from same_documents_trans [OF d same_documents_emit [of s3 ?log]]
  have "sorted_messages (emit ?log s3) = sorted_messages s"
    and "chat_doc (emit ?log s3) = chat_doc s"
    by (simp_all add: same_documents_def)
  moreover have "run_prompts c thread_id n ((i, prompt) # rest) s =
      run_prompts c thread_id n rest (emit ?log s3)"
    by (rule loop(1))
  moreover have "run_prompts c thread_id n [(i, prompt)] s = Some (Inr (), emit ?log s3)"
    by (rule loop(2))
  moreover have next_prompt: "run_prompts c thread_id n [(i, prompt), (j, q)] s =
      process_prompt c thread_id n (j, q) (emit ?log s3)"
    by (rule loop(3))
  moreover have "process_prompt c thread_id n (j, q) (emit ?log s3) = Some (res, s4) \<longrightarrow>
       run_prompts c thread_id n [(i, prompt), (j, q)] s = Some (res, s4) \<and>
       hd (new_events (emit ?log s3) s4) = Messages_create thread_id q"
    using next_prompt process_prompt_begins [of c thread_id n j q "emit ?log s3" res s4]
    by simp
  ultimately show ?thesis using step terminal by blast
qed

theorem failed_run_skips_refresh_witness:
  "submit_loop (mock True True ''failed'') ''thread_1'' 0 1 ''hello'' 0 start_state =
     (True, after_submit) \<and>
   run_loop (mock True True ''failed'') ''thread_1'' 0 1 0 after_submit =
     (Some \<lparr>run_id = ''run_1'', status = ''queued''\<rparr>, after_run) \<and>
   poll (mock True True ''failed'') ''thread_1'' \<lparr>run_id = ''run_1'', status = ''queued''\<rparr> after_run =
     Some (Inr \<lparr>run_id = ''run_1'', status = ''failed''\<rparr>, after_poll) \<and>
   status \<lparr>run_id = ''run_1'', status = ''failed''\<rparr> \<noteq> ''completed'' \<and>
   process_prompt (mock True True ''failed'') ''thread_1'' 1 (0, ''hello'') start_state =
     Some (Inr (), emit [Log_error (Run_failed 1 1 ''failed'')] after_poll) \<and>
   calls is_messages_list
     (new_events start_state (emit [Log_error (Run_failed 1 1 ''failed'')] after_poll)) = 0 \<and>
   sorted_messages (emit [Log_error (Run_failed 1 1 ''failed'')] after_poll) = None \<and>
   run_prompts (mock True True ''failed'') ''thread_1'' 1 [(0, ''hello'')] start_state =
     Some (Inr (), emit [Log_error (Run_failed 1 1 ''failed'')] after_poll) \<and>
   map_option (\<lambda>y. trace (snd y))
     (run_prompts (mock True True ''failed'') ''thread_1'' 2 [(0, ''one''), (1, ''two'')]
        start_state) =
     Some [Messages_create ''thread_1'' ''one'', Log_info (Added_prompt 1 2),
           Runs_create ''thread_1'' assistant_id, Sleep 1, Runs_retrieve ''thread_1'' ''run_1'',
           Log_error (Run_failed 1 2 ''failed''),
           Messages_create ''thread_1'' ''two'', Log_info (Added_prompt 2 2),
           Runs_create ''thread_1'' assistant_id, Sleep 1, Runs_retrieve ''thread_1'' ''run_1'',
           Log_error (Run_failed 2 2 ''failed'')] \<and>
   map_option (\<lambda>y. (fst y, sorted_messages (snd y), chat_doc (snd y)))
     (run_prompts (mock True True ''failed'') ''thread_1'' 2 [(0, ''one''), (1, ''two'')]
        start_state) =
     Some (Inr (), None, [Heading ''Chat History'' 0])"
proof -
  let ?C = "mock True True ''failed''"
  let ?queued = "\<lparr>run_id = ''run_1'', status = ''queued''\<rparr>"
  let ?failed = "\<lparr>run_id = ''run_1'', status = ''failed''\<rparr>"
  have terminal: "status ?failed \<noteq> ''completed''"
    by simp
  note one = failed_run_skips_refresh [OF failed_run_states terminal, of "[]"]
  from one
  have single: "process_prompt ?C ''thread_1'' 1 (0, ''hello'') start_state =
      Some (Inr (), emit [Log_error (Run_failed 1 1 ''failed'')] after_poll) \<and>
    calls is_messages_list
      (new_events start_state (emit [Log_error (Run_failed 1 1 ''failed'')] after_poll)) = 0 \<and>
    sorted_messages (emit [Log_error (Run_failed 1 1 ''failed'')] after_poll) =
      sorted_messages start_state \<and>
    run_prompts ?C ''thread_1'' 1 [(0, ''hello'')] start_state =
      Some (Inr (), emit [Log_error (Run_failed 1 1 ''failed'')] after_poll)"
    by simp
  have unbound: "sorted_messages start_state = None"
    by (simp add: start_state_def)
  let ?s1 = "snd (submit_loop ?C ''thread_1'' 0 2 ''one'' 0 start_state)"
  let ?s2 = "snd (run_loop ?C ''thread_1'' 0 2 0 ?s1)"
  let ?s3 = "snd (the (poll ?C ''thread_1'' ?queued ?s2))"
  let ?s' = "emit [Log_error (Run_failed (0 + 1) 2 (status ?failed))] ?s3"
  let ?s4 = "snd (the (process_prompt ?C ''thread_1'' 2 (1, ''two'') ?s'))"
  have h1: "submit_loop ?C ''thread_1'' 0 2 ''one'' 0 start_state = (True, ?s1)"
    by (simp add: mock_submit_ok)
  have h2: "run_loop ?C ''thread_1'' 0 2 0 ?s1 = (Some ?queued, ?s2)"
    by (simp add: mock_run_ok)
  have h3: "poll ?C ''thread_1'' ?queued ?s2 = Some (Inr ?failed, ?s3)"
    by (simp add: mock_poll_failed)
  have h4: "process_prompt ?C ''thread_1'' 2 (1, ''two'') ?s' = Some (Inr (), ?s4)"
    by (simp add: process_prompt_def mock_submit_ok mock_run_ok mock_poll_failed)
  from h4 failed_run_skips_refresh [OF h1 h2 h3 terminal, where j = 1 and q = "''two''"
      and res = "Inr ()" and ?s4.0 = ?s4]
  have two: "run_prompts ?C ''thread_1'' 2 [(0, ''one''), (1, ''two'')] start_state =
      Some (Inr (), ?s4)"
    by blast
  have "map_option (\<lambda>y. trace (snd y))
     (run_prompts ?C ''thread_1'' 2 [(0, ''one''), (1, ''two'')] start_state) =
     Some [Messages_create ''thread_1'' ''one'', Log_info (Added_prompt 1 2),
           Runs_create ''thread_1'' assistant_id, Sleep 1, Runs_retrieve ''thread_1'' ''run_1'',
           Log_error (Run_failed 1 2 ''failed''),
           Messages_create ''thread_1'' ''two'', Log_info (Added_prompt 2 2),
           Runs_create ''thread_1'' assistant_id, Sleep 1, Runs_retrieve ''thread_1'' ''run_1'',
           Log_error (Run_failed 2 2 ''failed'')]"
    unfolding two
    by (simp add: process_prompt_def mock_submit_ok mock_run_ok mock_poll_failed emit_def
        start_state_def)
  moreover have "map_option (\<lambda>y. (fst y, sorted_messages (snd y), chat_doc (snd y)))
     (run_prompts ?C ''thread_1'' 2 [(0, ''one''), (1, ''two'')] start_state) =
     Some (Inr (), None, [Heading ''Chat History'' 0])"
    unfolding two
    by (simp add: process_prompt_def mock_submit_ok mock_run_ok mock_poll_failed emit_def
        start_state_def)
  ultimately show ?thesis
    using single unbound failed_run_states terminal by simp
qed

section \<open>The retry policy\<close>

lemma submit_attempts:
  "\<exists>k\<le>3.
     actions (new_events s (snd (submit_loop c thread_id i n prompt 0 s))) =
       concat (replicate k [Messages_create thread_id prompt, Sleep 1]) @
       (if fst (submit_loop c thread_id i n prompt 0 s)
        then [Messages_create thread_id prompt] else []) \<and>
     (fst (submit_loop c thread_id i n prompt 0 s) \<longleftrightarrow> k < 3)"
proof -
  obtain ok s1 where sub: "submit_loop c thread_id i n prompt 0 s = (ok, s1)"
    by force
  from submit_loop_shape [OF sub] obtain evs k where a: "appended s evs s1"
    and act: "actions evs =
        concat (replicate k [Messages_create thread_id prompt, Sleep 1]) @
        (if ok then [Messages_create thread_id prompt] else [])"
    and k1: "ok \<longrightarrow> 0 + k < 3" and k2: "\<not> ok \<longrightarrow> 0 + k = max 0 3"
    by blast
  from k1 k2 have "k \<le> 3" and "ok \<longleftrightarrow> k < 3"
    by (cases ok; simp)+
  with act appended_new_events [OF a] sub show ?thesis
    by (intro exI [of _ k]) simp
qed

lemma run_attempts:
  "\<exists>k\<le>3.
     actions (new_events s (snd (run_loop c thread_id i n 0 s))) =
       concat (replicate k [Runs_create thread_id assistant_id, Sleep 1]) @
       (if fst (run_loop c thread_id i n 0 s) \<noteq> None
        then [Runs_create thread_id assistant_id] else []) \<and>
     (fst (run_loop c thread_id i n 0 s) \<noteq> None \<longleftrightarrow> k < 3)"
proof -
  obtain ro s1 where run: "run_loop c thread_id i n 0 s = (ro, s1)"
    by force
  from run_loop_shape [OF run] obtain evs k where a: "appended s evs s1"
    and act: "actions evs =
        concat (replicate k [Runs_create thread_id assistant_id, Sleep 1]) @
        (if ro \<noteq> None then [Runs_create thread_id assistant_id] else [])"
    and k1: "ro \<noteq> None \<longrightarrow> 0 + k < 3" and k2: "ro = None \<longrightarrow> 0 + k = max 0 3"
    by blast
  from k1 k2 have "k \<le> 3" and "ro \<noteq> None \<longleftrightarrow> k < 3"
    by (cases "ro = None"; simp)+
  with act appended_new_events [OF a] run show ?thesis
    by (intro exI [of _ k]) simp
qed

lemma submit_exhausted_step:
  assumes "\<not> fst (submit_loop c thread_id i n prompt 0 s)"
  shows "process_prompt c thread_id n (i, prompt) s =
      Some (Inr (), emit [Log_error (Giving_up_prompt (i + 1) n prompt)]
                      (snd (submit_loop c thread_id i n prompt 0 s)))"
  using assms by (cases "submit_loop c thread_id i n prompt 0 s") (simp add: process_prompt_def)

lemma run_exhausted_step:
  assumes "submit_loop c thread_id i n prompt 0 s = (True, s1)"
    and "fst (run_loop c thread_id i n 0 s1) = None"
  shows "process_prompt c thread_id n (i, prompt) s =
      Some (Inr (), emit [Log_error (Giving_up_run (i + 1) n)] (snd (run_loop c thread_id i n 0 s1)))"
  using assms by (cases "run_loop c thread_id i n 0 s1") (simp add: process_prompt_def)

lemma process_prompt_new_events:
  assumes "process_prompt c thread_id n (i, prompt) s = Some (res, s')"
  shows "calls is_messages_create (new_events s s') \<le> 3 \<and>
         calls is_runs_create (new_events s s') \<le> 3"
  using process_prompt_counts [OF assms] appended_new_events by fastforce

text \<open>
  C8. For each prompt the submission is attempted at most three times: the remote calls
  and sleeps of the submission loop are \<open>k \<le> 3\<close> failed attempts, each followed by a
  sleep of one second, and then the successful attempt exactly when \<open>k < 3\<close>; the same
  holds for the creation of the run. When all three attempts of the submission fail,
  or all three of the run creation, the body of the loop ends normally (no exception)
  with the line that gives the prompt up, and the loop goes on with the next prompt.
  When the run ends with a status other than \<open>completed\<close>, the body logs it and the loop
  goes on with the next prompt, with no further call for this prompt. Whatever
  happens, a prompt costs at most three submissions and at most three run creations.
  Going on with the next prompt is a fact of the loop: in each of the three cases, when
  the prompt is the last one the loop ends normally in the state the log line leaves,
  and when another prompt follows the loop does for it what the body of the loop does
  from that state; and the body of a prompt begins with the submission of that prompt.
\<close>

theorem retry_policy:
  "(\<exists>k\<le>3.
      actions (new_events s (snd (submit_loop c thread_id i n prompt 0 s))) =
        concat (replicate k [Messages_create thread_id prompt, Sleep 1]) @
        (if fst (submit_loop c thread_id i n prompt 0 s)
         then [Messages_create thread_id prompt] else []) \<and>
      (fst (submit_loop c thread_id i n prompt 0 s) \<longleftrightarrow> k < 3)) \<and>
   (\<exists>k\<le>3.
      actions (new_events s (snd (run_loop c thread_id i n 0 s))) =
        concat (replicate k [Runs_create thread_id assistant_id, Sleep 1]) @
        (if fst (run_loop c thread_id i n 0 s) \<noteq> None
         then [Runs_create thread_id assistant_id] else []) \<and>
      (fst (run_loop c thread_id i n 0 s) \<noteq> None \<longleftrightarrow> k < 3)) \<and>
   (\<not> fst (submit_loop c thread_id i n prompt 0 s) \<longrightarrow>
      process_prompt c thread_id n (i, prompt) s =
        Some (Inr (), emit [Log_error (Giving_up_prompt (i + 1) n prompt)]
                        (snd (submit_loop c thread_id i n prompt 0 s))) \<and>
      run_prompts c thread_id n ((i, prompt) # rest) s =
        run_prompts c thread_id n rest
          (emit [Log_error (Giving_up_prompt (i + 1) n prompt)]
             (snd (submit_loop c thread_id i n prompt 0 s))) \<and>
      run_prompts c thread_id n [(i, prompt)] s =
        Some (Inr (), emit [Log_error (Giving_up_prompt (i + 1) n prompt)]
                        (snd (submit_loop c thread_id i n prompt 0 s))) \<and>
      run_prompts c thread_id n [(i, prompt), (j, q)] s =
        process_prompt c thread_id n (j, q)
          (emit [Log_error (Giving_up_prompt (i + 1) n prompt)]
             (snd (submit_loop c thread_id i n prompt 0 s)))) \<and>
   (submit_loop c thread_id i n prompt 0 s = (True, s1) \<and>
    fst (run_loop c thread_id i n 0 s1) = None \<longrightarrow>
      process_prompt c thread_id n (i, prompt) s =
        Some (Inr (), emit [Log_error (Giving_up_run (i + 1) n)]
                        (snd (run_loop c thread_id i n 0 s1))) \<and>
      run_prompts c thread_id n ((i, prompt) # rest) s =
        run_prompts c thread_id n rest
          (emit [Log_error (Giving_up_run (i + 1) n)] (snd (run_loop c thread_id i n 0 s1))) \<and>
      run_prompts c thread_id n [(i, prompt)] s =
        Some (Inr (), emit [Log_error (Giving_up_run (i + 1) n)]
                        (snd (run_loop c thread_id i n 0 s1))) \<and>
      run_prompts c thread_id n [(i, prompt), (j, q)] s =
        process_prompt c thread_id n (j, q)
          (emit [Log_error (Giving_up_run (i + 1) n)] (snd (run_loop c thread_id i n 0 s1)))) \<and>
   (submit_loop c thread_id i n prompt 0 s = (True, s1) \<and>
    run_loop c thread_id i n 0 s1 = (Some r, s2) \<and>
    poll c thread_id r s2 = Some (Inr r', s3) \<and> status r' \<noteq> ''completed'' \<longrightarrow>
      process_prompt c thread_id n (i, prompt) s =
        Some (Inr (), emit [Log_error (Run_failed (i + 1) n (status r'))] s3) \<and>
      run_prompts c thread_id n ((i, prompt) # rest) s =
        run_prompts c thread_id n rest
          (emit [Log_error (Run_failed (i + 1) n (status r'))] s3) \<and>
      run_prompts c thread_id n [(i, prompt)] s =
        Some (Inr (), emit [Log_error (Run_failed (i + 1) n (status r'))] s3) \<and>
      run_prompts c thread_id n [(i, prompt), (j, q)] s =
        process_prompt c thread_id n (j, q)
          (emit [Log_error (Run_failed (i + 1) n (status r'))] s3)) \<and>
   (process_prompt c thread_id n (i, prompt) s = Some (res, s') \<longrightarrow>
      calls is_messages_create (new_events s s') \<le> 3 \<and>
      calls is_runs_create (new_events s s') \<le> 3) \<and>
   (process_prompt c thread_id n (i, prompt) s = Some (res, s') \<longrightarrow>
      hd (new_events s s') = Messages_create thread_id prompt)"
proof -
  have "\<not> fst (submit_loop c thread_id i n prompt 0 s) \<longrightarrow>
      process_prompt c thread_id n (i, prompt) s =
        Some (Inr (), emit [Log_error (Giving_up_prompt (i + 1) n prompt)]
                        (snd (submit_loop c thread_id i n prompt 0 s))) \<and>
      run_prompts c thread_id n ((i, prompt) # rest) s =
        run_prompts c thread_id n rest
          (emit [Log_error (Giving_up_prompt (i + 1) n prompt)]
             (snd (submit_loop c thread_id i n prompt 0 s))) \<and>
      run_prompts c thread_id n [(i, prompt)] s =
        Some (Inr (), emit [Log_error (Giving_up_prompt (i + 1) n prompt)]
                        (snd (submit_loop c thread_id i n prompt 0 s))) \<and>
      run_prompts c thread_id n [(i, prompt), (j, q)] s =
        process_prompt c thread_id n (j, q)
          (emit [Log_error (Giving_up_prompt (i + 1) n prompt)]
             (snd (submit_loop c thread_id i n prompt 0 s)))"
    using submit_exhausted_step [of c thread_id i n prompt s]
      run_prompts_step [of c thread_id n "(i, prompt)" s
        "emit [Log_error (Giving_up_prompt (i + 1) n prompt)]
           (snd (submit_loop c thread_id i n prompt 0 s))"]
    by blast
  moreover have "submit_loop c thread_id i n prompt 0 s = (True, s1) \<and>
    fst (run_loop c thread_id i n 0 s1) = None \<longrightarrow>
      process_prompt c thread_id n (i, prompt) s =
        Some (Inr (), emit [Log_error (Giving_up_run (i + 1) n)]
                        (snd (run_loop c thread_id i n 0 s1))) \<and>
      run_prompts c thread_id n ((i, prompt) # rest) s =
        run_prompts c thread_id n rest
          (emit [Log_error (Giving_up_run (i + 1) n)] (snd (run_loop c thread_id i n 0 s1))) \<and>
      run_prompts c thread_id n [(i, prompt)] s =
        Some (Inr (), emit [Log_error (Giving_up_run (i + 1) n)]
                        (snd (run_loop c thread_id i n 0 s1))) \<and>
      run_prompts c thread_id n [(i, prompt), (j, q)] s =
        process_prompt c thread_id n (j, q)
          (emit [Log_error (Giving_up_run (i + 1) n)] (snd (run_loop c thread_id i n 0 s1)))"
    using run_exhausted_step [of c thread_id i n prompt s s1]
      run_prompts_step [of c thread_id n "(i, prompt)" s
        "emit [Log_error (Giving_up_run (i + 1) n)] (snd (run_loop c thread_id i n 0 s1))"]
    by blast
  moreover have "submit_loop c thread_id i n prompt 0 s = (True, s1) \<and>
    run_loop c thread_id i n 0 s1 = (Some r, s2) \<and>
    poll c thread_id r s2 = Some (Inr r', s3) \<and> status r' \<noteq> ''completed'' \<longrightarrow>
      process_prompt c thread_id n (i, prompt) s =
        Some (Inr (), emit [Log_error (Run_failed (i + 1) n (status r'))] s3) \<and>
      run_prompts c thread_id n ((i, prompt) # rest) s =
        run_prompts c thread_id n rest
          (emit [Log_error (Run_failed (i + 1) n (status r'))] s3) \<and>
      run_prompts c thread_id n [(i, prompt)] s =
        Some (Inr (), emit [Log_error (Run_failed (i + 1) n (status r'))] s3) \<and>
      run_prompts c thread_id n [(i, prompt), (j, q)] s =
        process_prompt c thread_id n (j, q)
          (emit [Log_error (Run_failed (i + 1) n (status r'))] s3)"
    using process_prompt_run_failed [of c thread_id i n prompt s s1 r s2 r' s3]
      run_prompts_step [of c thread_id n "(i, prompt)" s
        "emit [Log_error (Run_failed (i + 1) n (status r'))] s3"]
    by blast
  moreover have "process_prompt c thread_id n (i, prompt) s = Some (res, s') \<longrightarrow>
      calls is_messages_create (new_events s s') \<le> 3 \<and>
      calls is_runs_create (new_events s s') \<le> 3"
    using process_prompt_new_events [of c thread_id n i prompt s res s'] by simp
  moreover have "process_prompt c thread_id n (i, prompt) s = Some (res, s') \<longrightarrow>
      hd (new_events s s') = Messages_create thread_id prompt"
    using process_prompt_begins [of c thread_id n i prompt s res s'] by simp
  ultimately show ?thesis
    using submit_attempts [of s c thread_id i n prompt] run_attempts [of s c thread_id i n]
    by blast
qed

theorem retry_policy_witness:
  "\<not> fst (submit_loop (mock False True ''completed'') ''thread_1'' 0 1 ''hello'' 0 start_state) \<and>
   process_prompt (mock False True ''completed'') ''thread_1'' 1 (0, ''hello'') start_state =
     Some (Inr (), emit [Log_error (Giving_up_prompt 1 1 ''hello'')]
       (snd (submit_loop (mock False True ''completed'') ''thread_1'' 0 1 ''hello'' 0 start_state))) \<and>
   submit_loop (mock True False ''completed'') ''thread_1'' 0 1 ''hello'' 0 start_state =
     (True, after_submit) \<and>
   fst (run_loop (mock True False ''completed'') ''thread_1'' 0 1 0 after_submit) = None \<and>
   process_prompt (mock True False ''completed'') ''thread_1'' 1 (0, ''hello'') start_state =
     Some (Inr (), emit [Log_error (Giving_up_run 1 1)]
       (snd (run_loop (mock True False ''completed'') ''thread_1'' 0 1 0 after_submit))) \<and>
   submit_loop (mock True True ''failed'') ''thread_1'' 0 1 ''hello'' 0 start_state =
     (True, after_submit) \<and>
   run_loop (mock True True ''failed'') ''thread_1'' 0 1 0 after_submit =
     (Some \<lparr>run_id = ''run_1'', status = ''queued''\<rparr>, after_run) \<and>
   poll (mock True True ''failed'') ''thread_1'' \<lparr>run_id = ''run_1'', status = ''queued''\<rparr> after_run =
     Some (Inr \<lparr>run_id = ''run_1'', status = ''failed''\<rparr>, after_poll) \<and>
   status \<lparr>run_id = ''run_1'', status = ''failed''\<rparr> \<noteq> ''completed'' \<and>
   process_prompt (mock True True ''failed'') ''thread_1'' 1 (0, ''hello'') start_state =
     Some (Inr (), emit [Log_error (Run_failed 1 1 ''failed'')] after_poll) \<and>
   calls is_messages_create
     (new_events start_state (emit [Log_error (Run_failed 1 1 ''failed'')] after_poll)) \<le> 3 \<and>
   calls is_runs_create
     (new_events start_state (emit [Log_error (Run_failed 1 1 ''failed'')] after_poll)) \<le> 3 \<and>
   hd (new_events start_state (emit [Log_error (Run_failed 1 1 ''failed'')] after_poll)) =
     Messages_create ''thread_1'' ''hello'' \<and>
   run_prompts (mock True True ''failed'') ''thread_1'' 1 [(0, ''hello'')] start_state =
     Some (Inr (), emit [Log_error (Run_failed 1 1 ''failed'')] after_poll) \<and>
   map_option (\<lambda>y. (fst y, trace (snd y)))
     (run_prompts (mock False True ''completed'') ''thread_1'' 2 [(0, ''one''), (1, ''two'')]
        start_state) =
     Some (Inr (),
       [Messages_create ''thread_1'' ''one'',
        Log_error (Add_prompt_failed 1 2 (Exception ''connection error'')), Sleep 1,
        Messages_create ''thread_1'' ''one'',
        Log_error (Add_prompt_failed 1 2 (Exception ''connection error'')), Sleep 1,
        Messages_create ''thread_1'' ''one'',
        Log_error (Add_prompt_failed 1 2 (Exception ''connection error'')), Sleep 1,
        Log_error (Giving_up_prompt 1 2 ''one''),
        Messages_create ''thread_1'' ''two'',
        Log_error (Add_prompt_failed 2 2 (Exception ''connection error'')), Sleep 1,
        Messages_create ''thread_1'' ''two'',
        Log_error (Add_prompt_failed 2 2 (Exception ''connection error'')), Sleep 1,
        Messages_create ''thread_1'' ''two'',
        Log_error (Add_prompt_failed 2 2 (Exception ''connection error'')), Sleep 1,
        Log_error (Giving_up_prompt 2 2 ''two'')]) \<and>
   map_option (\<lambda>y. (fst y, trace (snd y)))
     (run_prompts (mock True False ''completed'') ''thread_1'' 2 [(0, ''one''), (1, ''two'')]
        start_state) =
     Some (Inr (),
       [Messages_create ''thread_1'' ''one'', Log_info (Added_prompt 1 2),
        Runs_create ''thread_1'' assistant_id,
        Log_error (Run_create_failed 1 2 (Exception ''rate limit'')), Sleep 1,
        Runs_create ''thread_1'' assistant_id,
        Log_error (Run_create_failed 1 2 (Exception ''rate limit'')), Sleep 1,
        Runs_create ''thread_1'' assistant_id,
        Log_error (Run_create_failed 1 2 (Exception ''rate limit'')), Sleep 1,
        Log_error (Giving_up_run 1 2),
        Messages_create ''thread_1'' ''two'', Log_info (Added_prompt 2 2),
        Runs_create ''thread_1'' assistant_id,
        Log_error (Run_create_failed 2 2 (Exception ''rate limit'')), Sleep 1,
        Runs_create ''thread_1'' assistant_id,
        Log_error (Run_create_failed 2 2 (Exception ''rate limit'')), Sleep 1,
        Runs_create ''thread_1'' assistant_id,
        Log_error (Run_create_failed 2 2 (Exception ''rate limit'')), Sleep 1,
        Log_error (Giving_up_run 2 2)]) \<and>
   map_option (\<lambda>y. (fst y, trace (snd y)))
     (run_prompts (mock True True ''failed'') ''thread_1'' 2 [(0, ''one''), (1, ''two'')]
        start_state) =
     Some (Inr (),
       [Messages_create ''thread_1'' ''one'', Log_info (Added_prompt 1 2),
        Runs_create ''thread_1'' assistant_id, Sleep 1, Runs_retrieve ''thread_1'' ''run_1'',
        Log_error (Run_failed 1 2 ''failed''),
        Messages_create ''thread_1'' ''two'', Log_info (Added_prompt 2 2),
        Runs_create ''thread_1'' assistant_id, Sleep 1, Runs_retrieve ''thread_1'' ''run_1'',
        Log_error (Run_failed 2 2 ''failed'')])"
proof -
  let ?A = "mock False True ''completed''" and ?B = "mock True False ''completed''"
    and ?C = "mock True True ''failed''"
  let ?queued = "\<lparr>run_id = ''run_1'', status = ''queued''\<rparr>"
  let ?failed = "\<lparr>run_id = ''run_1'', status = ''failed''\<rparr>"
  let ?two = "[(0 :: nat, ''one''), (1, ''two'')]"
  have a: "\<not> fst (submit_loop ?A ''thread_1'' 0 1 ''hello'' 0 start_state)"
    by (simp add: mock_submit_fails)
  with retry_policy [where c = ?A and thread_id = "''thread_1''" and i = 0 and n = 1
      and prompt = "''hello''" and s = start_state and rest = "[]"]
  have a': "process_prompt ?A ''thread_1'' 1 (0, ''hello'') start_state =
     Some (Inr (), emit [Log_error (Giving_up_prompt 1 1 ''hello'')]
       (snd (submit_loop ?A ''thread_1'' 0 1 ''hello'' 0 start_state)))"
    by simp
  have b1: "submit_loop ?B ''thread_1'' 0 1 ''hello'' 0 start_state = (True, after_submit)"
    by (simp add: mock_submit_ok after_submit_def start_state_def mock_start_def)
  have b2: "fst (run_loop ?B ''thread_1'' 0 1 0 after_submit) = None"
    by (simp add: mock_run_fails)
  from b1 b2 retry_policy [where c = ?B and thread_id = "''thread_1''" and i = 0 and n = 1
      and prompt = "''hello''" and s = start_state and rest = "[]" and ?s1.0 = after_submit]
  have b': "process_prompt ?B ''thread_1'' 1 (0, ''hello'') start_state =
     Some (Inr (), emit [Log_error (Giving_up_run 1 1)]
       (snd (run_loop ?B ''thread_1'' 0 1 0 after_submit)))"
    by simp
  have terminal: "status ?failed \<noteq> ''completed''"
    by simp
  from failed_run_states terminal
    retry_policy [where c = ?C and thread_id = "''thread_1''" and i = 0 and n = 1
      and prompt = "''hello''" and s = start_state and rest = "[]" and ?s1.0 = after_submit
      and r = ?queued and ?s2.0 = after_run and r' = ?failed and ?s3.0 = after_poll]
  have c': "process_prompt ?C ''thread_1'' 1 (0, ''hello'') start_state =
     Some (Inr (), emit [Log_error (Run_failed 1 1 ''failed'')] after_poll) \<and>
     run_prompts ?C ''thread_1'' 1 [(0, ''hello'')] start_state =
     Some (Inr (), emit [Log_error (Run_failed 1 1 ''failed'')] after_poll)"
    by simp
  with retry_policy [where c = ?C and thread_id = "''thread_1''" and i = 0 and n = 1
      and prompt = "''hello''" and s = start_state and res = "Inr ()"
      and s' = "emit [Log_error (Run_failed 1 1 ''failed'')] after_poll"]
  have c'': "calls is_messages_create
     (new_events start_state (emit [Log_error (Run_failed 1 1 ''failed'')] after_poll)) \<le> 3 \<and>
   calls is_runs_create
     (new_events start_state (emit [Log_error (Run_failed 1 1 ''failed'')] after_poll)) \<le> 3 \<and>
   hd (new_events start_state (emit [Log_error (Run_failed 1 1 ''failed'')] after_poll)) =
     Messages_create ''thread_1'' ''hello''"
    by blast
  have a2: "\<not> fst (submit_loop ?A ''thread_1'' 0 2 ''one'' 0 start_state)"
    by (simp add: mock_submit_fails)
  with retry_policy [where c = ?A and thread_id = "''thread_1''" and i = 0 and n = 2
      and prompt = "''one''" and s = start_state and j = 1 and q = "''two''"]
  have a_two: "run_prompts ?A ''thread_1'' 2 ?two start_state =
      process_prompt ?A ''thread_1'' 2 (1, ''two'')
        (emit [Log_error (Giving_up_prompt (0 + 1) 2 ''one'')]
           (snd (submit_loop ?A ''thread_1'' 0 2 ''one'' 0 start_state)))"
    by blast
  have a_run: "map_option (\<lambda>y. (fst y, trace (snd y)))
     (run_prompts ?A ''thread_1'' 2 ?two start_state) =
     Some (Inr (),
       [Messages_create ''thread_1'' ''one'',
        Log_error (Add_prompt_failed 1 2 (Exception ''connection error'')), Sleep 1,
        Messages_create ''thread_1'' ''one'',
        Log_error (Add_prompt_failed 1 2 (Exception ''connection error'')), Sleep 1,
        Messages_create ''thread_1'' ''one'',
        Log_error (Add_prompt_failed 1 2 (Exception ''connection error'')), Sleep 1,
        Log_error (Giving_up_prompt 1 2 ''one''),
        Messages_create ''thread_1'' ''two'',
        Log_error (Add_prompt_failed 2 2 (Exception ''connection error'')), Sleep 1,
        Messages_create ''thread_1'' ''two'',
        Log_error (Add_prompt_failed 2 2 (Exception ''connection error'')), Sleep 1,
        Messages_create ''thread_1'' ''two'',
        Log_error (Add_prompt_failed 2 2 (Exception ''connection error'')), Sleep 1,
        Log_error (Giving_up_prompt 2 2 ''two'')])"
    unfolding a_two
    by (simp add: process_prompt_def mock_submit_fails emit_def start_state_def)
  let ?b1 = "snd (submit_loop ?B ''thread_1'' 0 2 ''one'' 0 start_state)"
  have b3: "submit_loop ?B ''thread_1'' 0 2 ''one'' 0 start_state = (True, ?b1)"
    by (simp add: mock_submit_ok)
  have b4: "fst (run_loop ?B ''thread_1'' 0 2 0 ?b1) = None"
    by (simp add: mock_run_fails)
  from b3 b4 retry_policy [where c = ?B and thread_id = "''thread_1''" and i = 0 and n = 2
      and prompt = "''one''" and s = start_state and ?s1.0 = ?b1 and j = 1 and q = "''two''"]
  have b_two: "run_prompts ?B ''thread_1'' 2 ?two start_state =
      process_prompt ?B ''thread_1'' 2 (1, ''two'')
        (emit [Log_error (Giving_up_run (0 + 1) 2)] (snd (run_loop ?B ''thread_1'' 0 2 0 ?b1)))"
    by blast
  have b_run: "map_option (\<lambda>y. (fst y, trace (snd y)))
     (run_prompts ?B ''thread_1'' 2 ?two start_state) =
     Some (Inr (),
       [Messages_create ''thread_1'' ''one'', Log_info (Added_prompt 1 2),
        Runs_create ''thread_1'' assistant_id,
        Log_error (Run_create_failed 1 2 (Exception ''rate limit'')), Sleep 1,
        Runs_create ''thread_1'' assistant_id,
        Log_error (Run_create_failed 1 2 (Exception ''rate limit'')), Sleep 1,
        Runs_create ''thread_1'' assistant_id,
        Log_error (Run_create_failed 1 2 (Exception ''rate limit'')), Sleep 1,
        Log_error (Giving_up_run 1 2),
        Messages_create ''thread_1'' ''two'', Log_info (Added_prompt 2 2),
        Runs_create ''thread_1'' assistant_id,
        Log_error (Run_create_failed 2 2 (Exception ''rate limit'')), Sleep 1,
        Runs_create ''thread_1'' assistant_id,
        Log_error (Run_create_failed 2 2 (Exception ''rate limit'')), Sleep 1,
        Runs_create ''thread_1'' assistant_id,
        Log_error (Run_create_failed 2 2 (Exception ''rate limit'')), Sleep 1,
        Log_error (Giving_up_run 2 2)])"
    unfolding b_two
    by (simp add: process_prompt_def mock_submit_ok mock_run_fails emit_def start_state_def)
  let ?c1 = "snd (submit_loop ?C ''thread_1'' 0 2 ''one'' 0 start_state)"
  let ?c2 = "snd (run_loop ?C ''thread_1'' 0 2 0 ?c1)"
  let ?c3 = "snd (the (poll ?C ''thread_1'' ?queued ?c2))"
  have c1: "submit_loop ?C ''thread_1'' 0 2 ''one'' 0 start_state = (True, ?c1)"
    by (simp add: mock_submit_ok)
  have c2: "run_loop ?C ''thread_1'' 0 2 0 ?c1 = (Some ?queued, ?c2)"
    by (simp add: mock_run_ok)
  have c3: "poll ?C ''thread_1'' ?queued ?c2 = Some (Inr ?failed, ?c3)"
    by (simp add: mock_poll_failed)
  from c1 c2 c3 terminal
    retry_policy [where c = ?C and thread_id = "''thread_1''" and i = 0 and n = 2
      and prompt = "''one''" and s = start_state and ?s1.0 = ?c1 and r = ?queued
      and ?s2.0 = ?c2 and r' = ?failed and ?s3.0 = ?c3 and j = 1 and q = "''two''"]
  have c_two: "run_prompts ?C ''thread_1'' 2 ?two start_state =
      process_prompt ?C ''thread_1'' 2 (1, ''two'')
        (emit [Log_error (Run_failed (0 + 1) 2 (status ?failed))] ?c3)"
    by blast
  have c_run: "map_option (\<lambda>y. (fst y, trace (snd y)))
     (run_prompts ?C ''thread_1'' 2 ?two start_state) =
     Some (Inr (),
       [Messages_create ''thread_1'' ''one'', Log_info (Added_prompt 1 2),
        Runs_create ''thread_1'' assistant_id, Sleep 1, Runs_retrieve ''thread_1'' ''run_1'',
        Log_error (Run_failed 1 2 ''failed''),
        Messages_create ''thread_1'' ''two'', Log_info (Added_prompt 2 2),
        Runs_create ''thread_1'' assistant_id, Sleep 1, Runs_retrieve ''thread_1'' ''run_1'',
        Log_error (Run_failed 2 2 ''failed'')])"
    unfolding c_two
    by (simp add: process_prompt_def mock_submit_ok mock_run_ok mock_poll_failed emit_def
        start_state_def)
  from a a' b1 b2 b' failed_run_states terminal c' c'' a_run b_run c_run show ?thesis
    by blast
qed

section \<open>Termination when the services fail\<close>

lemma enumerate_prompts:
  "map (\<lambda>ip. f (snd ip)) (enumerate j prompts) = map f prompts"
  by (induction prompts arbitrary: j) simp_all

text \<open>
  C9. For a prompt sequence of length \<open>N\<close>, when every message-create and every
  run-create call fails, the loop over the prompts ends normally: its remote calls and
  sleeps are, for each prompt in order, three submission attempts each followed by a
  sleep of one second, so \<open>3 * N\<close> submission attempts and sleeps and \<open>N\<close> prompts given
  up; no run is created (none of the at most \<open>3 * N\<close> run attempts is reached), the poll
  loop is never entered (no run is retrieved), and no message list is fetched. And
  whatever the services answer, a loop that ends has made at most \<open>3 * N\<close> submission
  attempts and at most \<open>3 * N\<close> run attempts and given up at most \<open>N\<close> prompts.
\<close>

theorem failing_services_terminate:
  "(run_prompts c thread_id n ips s = Some (res, s1) \<longrightarrow>
      calls is_messages_create (new_events s s1) \<le> 3 * length ips \<and>
      calls is_runs_create (new_events s s1) \<le> 3 * length ips \<and>
      calls is_giving_up (new_events s s1) \<le> length ips) \<and>
   ((\<forall>t r p w. isl (fst (messages_create c t r p w))) \<and>
    (\<forall>t a w. isl (fst (runs_create c t a w))) \<longrightarrow>
      (\<exists>s'. run_prompts c thread_id (length prompts) (enumerate 0 prompts) s = Some (Inr (), s') \<and>
         actions (new_events s s') =
           concat (map (\<lambda>p. concat (replicate 3 [Messages_create thread_id p, Sleep 1])) prompts) \<and>
         calls is_messages_create (new_events s s') = 3 * length prompts \<and>
         calls is_sleep (new_events s s') = 3 * length prompts \<and>
         calls is_giving_up (new_events s s') = length prompts \<and>
         calls is_runs_create (new_events s s') = 0 \<and>
         calls is_runs_retrieve (new_events s s') = 0 \<and>
         calls is_messages_list (new_events s s') = 0 \<and>
         same_documents s s'))"
proof -
  have bound: "run_prompts c thread_id n ips s = Some (res, s1) \<longrightarrow>
      calls is_messages_create (new_events s s1) \<le> 3 * length ips \<and>
      calls is_runs_create (new_events s s1) \<le> 3 * length ips \<and>
      calls is_giving_up (new_events s s1) \<le> length ips"
    using run_prompts_counts [of c thread_id n ips s res s1] appended_new_events by fastforce
  have "\<exists>s'. run_prompts c thread_id (length prompts) (enumerate 0 prompts) s = Some (Inr (), s') \<and>
         actions (new_events s s') =
           concat (map (\<lambda>p. concat (replicate 3 [Messages_create thread_id p, Sleep 1])) prompts) \<and>
         calls is_messages_create (new_events s s') = 3 * length prompts \<and>
         calls is_sleep (new_events s s') = 3 * length prompts \<and>
         calls is_giving_up (new_events s s') = length prompts \<and>
         calls is_runs_create (new_events s s') = 0 \<and>
         calls is_runs_retrieve (new_events s s') = 0 \<and>
         calls is_messages_list (new_events s s') = 0 \<and>
         same_documents s s'"
    if fail: "\<forall>t r p w. isl (fst (messages_create c t r p w))"
  proof -
    let ?ips = "enumerate 0 prompts"
    let ?acts = "concat (map (\<lambda>ip. concat (replicate 3 [Messages_create thread_id (snd ip), Sleep 1]))
        ?ips)"
    from run_prompts_all_fail [OF fail, of thread_id "length prompts" ?ips s]
    obtain s' evs where run: "run_prompts c thread_id (length prompts) ?ips s = Some (Inr (), s')"
      and a: "appended s evs s'" and d: "same_documents s s'"
      and act: "actions evs = ?acts"
      and gu: "calls is_giving_up evs = length ?ips"
      by blast
    note new = appended_new_events [OF a]
    have acts: "?acts =
        concat (map (\<lambda>p. concat (replicate 3 [Messages_create thread_id p, Sleep 1])) prompts)"
      using enumerate_prompts
        [of "\<lambda>p. concat (replicate 3 [Messages_create thread_id p, Sleep 1])" 0 prompts]
      by simp
    have "calls is_messages_create evs = 3 * length prompts"
      using calls_actions(1) [of evs] all_fail_calls(1) [of thread_id ?ips] by (simp add: act)
    moreover have "calls is_sleep evs = 3 * length prompts"
      using calls_actions(6) [of evs] all_fail_calls(2) [of thread_id ?ips] by (simp add: act)
    moreover have "calls is_runs_create evs = 0"
      using calls_actions(2) [of evs] all_fail_calls(3) [of thread_id ?ips] by (simp add: act)
    moreover have "calls is_runs_retrieve evs = 0"
      using calls_actions(3) [of evs] all_fail_calls(4) [of thread_id ?ips] by (simp add: act)
    moreover have "calls is_messages_list evs = 0"
      using calls_actions(4) [of evs] all_fail_calls(5) [of thread_id ?ips] by (simp add: act)
    moreover have "calls is_giving_up evs = length prompts"
      using gu by simp
    moreover have "actions evs =
        concat (map (\<lambda>p. concat (replicate 3 [Messages_create thread_id p, Sleep 1])) prompts)"
      using act acts by simp
    ultimately show ?thesis
      using run d new by (intro exI [of _ s']) simp
  qed
  with bound show ?thesis by blast
qed

theorem failing_services_terminate_witness:
  "(\<forall>t r p w. isl (fst (messages_create (mock False False ''completed'') t r p w))) \<and>
   (\<forall>t a w. isl (fst (runs_create (mock False False ''completed'') t a w))) \<and>
   (\<exists>s'. run_prompts (mock False False ''completed'') ''thread_1''
            (length [''one'', ''two'']) (enumerate 0 [''one'', ''two'']) start_state =
          Some (Inr (), s') \<and>
        calls is_messages_create (new_events start_state s') = 3 * length [''one'', ''two''] \<and>
        calls is_giving_up (new_events start_state s') = length [''one'', ''two''] \<and>
        calls is_runs_create (new_events start_state s') = 0 \<and>
        calls is_runs_retrieve (new_events start_state s') = 0 \<and>
        calls is_messages_create (new_events start_state s') \<le>
          3 * length (enumerate 0 [''one'', ''two'']) \<and>
        calls is_runs_create (new_events start_state s') \<le>
          3 * length (enumerate 0 [''one'', ''two'']))"
proof -
  let ?c = "mock False False ''completed''" and ?prompts = "[''one'', ''two'']"
  note fails = mock_always_fails(1) [of False "''completed''"]
    mock_always_fails(2) [of False "''completed''"]
  from fails
    failing_services_terminate [where c = ?c and thread_id = "''thread_1''"
      and prompts = ?prompts and s = start_state]
  obtain s' where run: "run_prompts ?c ''thread_1'' (length ?prompts) (enumerate 0 ?prompts)
        start_state = Some (Inr (), s')"
    and exact: "calls is_messages_create (new_events start_state s') = 3 * length ?prompts"
      "calls is_giving_up (new_events start_state s') = length ?prompts"
      "calls is_runs_create (new_events start_state s') = 0"
      "calls is_runs_retrieve (new_events start_state s') = 0"
    by blast
  from run
    failing_services_terminate [where c = ?c and thread_id = "''thread_1''"
      and n = "length ?prompts" and ips = "enumerate 0 ?prompts" and s = start_state
      and res = "Inr ()" and ?s1.0 = s']
  have "calls is_messages_create (new_events start_state s') \<le> 3 * length (enumerate 0 ?prompts)"
    and "calls is_runs_create (new_events start_state s') \<le> 3 * length (enumerate 0 ?prompts)"
    by blast+
  with fails run exact show ?thesis by blast
qed

section \<open>The documents at the end of a batch\<close>

lemma reply_runs:
  "format_runs ''**Proposal** text'' =
     [Docx_run [] False, Docx_run ''Proposal'' True, Docx_run '' text'' False]"
proof -
  have "format_runs ([] @ ''**'' @ ''Proposal'' @ ''**'' @ '' text'') =
      Docx_run [] False # Docx_run ''Proposal'' True # format_runs '' text''"
    by (rule format_runs_pair) simp_all
  moreover have "format_runs '' text'' = [Docx_run '' text'' False]"
    by (rule format_runs_plain) simp
  ultimately show ?thesis by simp
qed

text \<open>
  C2 fails on the code. The transcript document is not rebuilt after a prompt: the
  whole sorted transcript is appended to it after every completed prompt. With no
  attachments and a service that completes each of the four prompts, the thread ends
  with 8 messages, sorted and each once in \<open>sorted_messages\<close>; the uploaded transcript
  document holds 20 paragraphs after its heading, and the first prompt's paragraph
  stands at positions 1, 3, 7 and 13. The draft document is built from the text of
  the last message only, as the claim says.
\<close>

theorem transcript_repeats_messages:
  "\<exists>s. handle_request (mock True True ''completed'') (Inr []) mock_start = Some (Inr (), s) \<and>
     length (thread (world s)) = 8 \<and>
     map_option length (sorted_messages s) = Some 8 \<and>
     map_option (map created_at) (sorted_messages s) =
       Some [1000, 1001, 1002, 1003, 1004, 1005, 1006, 1007] \<and>
     length (chat_doc s) = 21 \<and>
     chat_doc s ! 1 = Paragraph [Docx_run ''User: '' True, Docx_run rfp_analysis_prompt False] \<and>
     chat_doc s ! 3 = chat_doc s ! 1 \<and>
     chat_doc s ! 7 = chat_doc s ! 1 \<and>
     chat_doc s ! 13 = chat_doc s ! 1 \<and>
     filter is_onedrive_put (trace s) =
       [Onedrive_put ''chat_history.docx'' (chat_doc s),
        Onedrive_put ''draft_response.docx''
          [Heading ''Draft Proposal'' 0,
           Paragraph [Docx_run [] False, Docx_run ''Proposal'' True, Docx_run '' text'' False]]]"
  by (simp add: handle_request_def handle_request_body_def no_files_prompts enumerate_four
      remote_def emit_def mock_other_calls process_prompt_def mock_submit_ok mock_run_ok
      mock_poll_completed refresh_transcript_def first_text_def mock_start_def
      finish_request_def last_response_def upload_to_onedrive_def
      add_formatted_content_paragraphs reply_runs Let_def)

text \<open>
  C1 fails on the code. When no prompt of the batch completes, \<open>sorted_messages\<close> is never
  assigned, and line 207 reads it: \<open>handle_request\<close> raises UnboundLocalError after the
  loop, logs it and raises again, and neither document is uploaded. This holds when
  every submission fails, when every run creation fails, and when every run ends
  with status \<open>failed\<close>.
\<close>

theorem failed_batch_uploads_nothing:
  "map_option fst (handle_request (mock False True ''completed'') (Inr []) mock_start) =
     Some (Inl sorted_messages_unbound) \<and>
   map_option (\<lambda>y. filter is_onedrive_put (trace (snd y)))
     (handle_request (mock False True ''completed'') (Inr []) mock_start) = Some [] \<and>
   map_option (\<lambda>y. last (trace (snd y)))
     (handle_request (mock False True ''completed'') (Inr []) mock_start) =
     Some (Log_error (Handle_request_error sorted_messages_unbound)) \<and>
   map_option fst (handle_request (mock True False ''completed'') (Inr []) mock_start) =
     Some (Inl sorted_messages_unbound) \<and>
   map_option (\<lambda>y. filter is_onedrive_put (trace (snd y)))
     (handle_request (mock True False ''completed'') (Inr []) mock_start) = Some [] \<and>
   map_option fst (handle_request (mock True True ''failed'') (Inr []) mock_start) =
     Some (Inl sorted_messages_unbound) \<and>
   map_option (\<lambda>y. filter is_onedrive_put (trace (snd y)))
     (handle_request (mock True True ''failed'') (Inr []) mock_start) = Some []"
proof -
  note run = handle_request_def handle_request_body_def no_files_prompts enumerate_four
    remote_def emit_def mock_other_calls process_prompt_def finish_request_def
    last_response_def
  have "map_option fst (handle_request (mock False True ''completed'') (Inr []) mock_start) =
      Some (Inl sorted_messages_unbound) \<and>
    map_option (\<lambda>y. filter is_onedrive_put (trace (snd y)))
      (handle_request (mock False True ''completed'') (Inr []) mock_start) = Some [] \<and>
    map_option (\<lambda>y. last (trace (snd y)))
      (handle_request (mock False True ''completed'') (Inr []) mock_start) =
      Some (Log_error (Handle_request_error sorted_messages_unbound))"
    by (simp add: run mock_submit_fails)
  moreover
  have "map_option fst (handle_request (mock True False ''completed'') (Inr []) mock_start) =
      Some (Inl sorted_messages_unbound) \<and>
    map_option (\<lambda>y. filter is_onedrive_put (trace (snd y)))
      (handle_request (mock True False ''completed'') (Inr []) mock_start) = Some []"
    by (simp add: run mock_submit_ok mock_run_fails)
  moreover
  have "map_option fst (handle_request (mock True True ''failed'') (Inr []) mock_start) =
      Some (Inl sorted_messages_unbound) \<and>
    map_option (\<lambda>y. filter is_onedrive_put (trace (snd y)))
      (handle_request (mock True True ''failed'') (Inr []) mock_start) = Some []"
    by (simp add: run mock_submit_ok mock_run_ok mock_poll_failed)
  ultimately show ?thesis by blast
qed

end
